theory Spec2Isabelle
  imports Main "HOL-Library.Word" "HOL-Library.Monad_Syntax"
begin

unbundle bit_operations_syntax

section \<open>Machine types\<close>

type_synonym u8 = "8 word"
type_synonym u16 = "16 word"
type_synonym u32 = "32 word"
type_synonym i16 = "16 word"

section \<open>Per-channel controls (\<open>Basic_DAB_Plus_Controls\<close>)\<close>

text \<open>
  The control object holds one member, the byte \<open>flags\<close>, and is modelled by this
  byte: a setter takes the flags and returns the new flags. The flag constants are
  the \<open>constexpr uint8_t\<close> values of the source.
\<close>

definition CONTROL_FLAG_DECODE_AUDIO :: u8 where
  "CONTROL_FLAG_DECODE_AUDIO = 0x80"

definition CONTROL_FLAG_DECODE_DATA :: u8 where
  "CONTROL_FLAG_DECODE_DATA = 0x40"

definition CONTROL_FLAG_PLAY_AUDIO :: u8 where
  "CONTROL_FLAG_PLAY_AUDIO = 0x20"

definition CONTROL_FLAG_ALL_SELECTED :: u8 where
  "CONTROL_FLAG_ALL_SELECTED = 0xE0"

text \<open>\<open>SetFlag(flag, state)\<close>: \<open>flags |= flag\<close> or \<open>flags &= ~flag\<close>.\<close>

definition SetFlag :: "u8 \<Rightarrow> bool \<Rightarrow> u8 \<Rightarrow> u8" where
  "SetFlag flag state flags = (if state then flags OR flag else flags AND NOT flag)"

definition GetAnyEnabled :: "u8 \<Rightarrow> bool" where
  "GetAnyEnabled flags = (flags \<noteq> 0)"

definition GetAllEnabled :: "u8 \<Rightarrow> bool" where
  "GetAllEnabled flags = (flags = CONTROL_FLAG_ALL_SELECTED)"

definition RunAll :: "u8 \<Rightarrow> u8" where
  "RunAll flags = CONTROL_FLAG_ALL_SELECTED"

definition StopAll :: "u8 \<Rightarrow> u8" where
  "StopAll flags = 0"

definition GetIsDecodeAudio :: "u8 \<Rightarrow> bool" where
  "GetIsDecodeAudio flags = (flags AND CONTROL_FLAG_DECODE_AUDIO \<noteq> 0)"

definition SetIsDecodeAudio :: "bool \<Rightarrow> u8 \<Rightarrow> u8" where
  "SetIsDecodeAudio v flags =
     (let flags1 = SetFlag CONTROL_FLAG_DECODE_AUDIO v flags
      in if \<not> v then SetFlag CONTROL_FLAG_PLAY_AUDIO False flags1 else flags1)"

definition GetIsDecodeData :: "u8 \<Rightarrow> bool" where
  "GetIsDecodeData flags = (flags AND CONTROL_FLAG_DECODE_DATA \<noteq> 0)"

definition SetIsDecodeData :: "bool \<Rightarrow> u8 \<Rightarrow> u8" where
  "SetIsDecodeData v flags = SetFlag CONTROL_FLAG_DECODE_DATA v flags"

definition GetIsPlayAudio :: "u8 \<Rightarrow> bool" where
  "GetIsPlayAudio flags = (flags AND CONTROL_FLAG_PLAY_AUDIO \<noteq> 0)"

definition SetIsPlayAudio :: "bool \<Rightarrow> u8 \<Rightarrow> u8" where
  "SetIsPlayAudio v flags =
     (let flags1 = SetFlag CONTROL_FLAG_PLAY_AUDIO v flags
      in if v then SetFlag CONTROL_FLAG_DECODE_AUDIO True flags1 else flags1)"

section \<open>Reading C buffers\<close>

text \<open>
  A \<open>const uint8_t*\<close> argument is modelled by the list of the bytes from the pointer
  to the end of the array it points into. \<open>rd buf i\<close> is the read \<open>buf[i]\<close>; a read
  past the end of the array is undefined behaviour in the source and \<open>None\<close> here.
  Pointer arithmetic \<open>&buf[k]\<close> is \<open>drop k buf\<close>.
\<close>

definition rd :: "u8 list \<Rightarrow> nat \<Rightarrow> u8 option" where
  "rd buf i = (if i < length buf then Some (buf ! i) else None)"

section \<open>CRC-16 of a FIB\<close>

text \<open>
  Modelled from the spec: \<open>CRC::Calculate\<close> and \<open>CRC::Table\<close> come from the header
  \<open>CRC.h\<close>, which is not among the sources. The constructor of \<open>FIC_Processor\<close> builds
  the table from the parameters \<open>{crc16_poly = 0x1021, 0xFFFF, 0x0000, false, false}\<close>:
  polynomial \<open>0x1021\<close>, initial value \<open>0xFFFF\<close>, final XOR \<open>0x0000\<close>, no reflection
  of input or output. The definition is the bitwise, most significant bit first, CRC
  with these parameters (the XOR-out \<open>0xFFFF\<close> of the spec is applied by the caller
  to the received value).
\<close>

definition crc16_poly :: u16 where
  "crc16_poly = 0x1021"

definition crc16_shift :: "u16 \<Rightarrow> u16" where
  "crc16_shift crc = (if bit crc 15 then push_bit 1 crc XOR crc16_poly else push_bit 1 crc)"

definition crc16_byte :: "u16 \<Rightarrow> u8 \<Rightarrow> u16" where
  "crc16_byte crc b =
     crc16_shift (crc16_shift (crc16_shift (crc16_shift (crc16_shift (crc16_shift
       (crc16_shift (crc16_shift (crc XOR push_bit 8 (ucast b)))))))))"

fun CRC_Calculate_from :: "u16 \<Rightarrow> u8 list \<Rightarrow> u16" where
  "CRC_Calculate_from crc [] = crc"
| "CRC_Calculate_from crc (b # bs) = CRC_Calculate_from (crc16_byte crc b) bs"

definition CRC_Calculate :: "u8 list \<Rightarrow> u16" where
  "CRC_Calculate bytes = CRC_Calculate_from 0xFFFF bytes XOR 0x0000"

section \<open>The FIG parser of \<open>FIC_Processor\<close>\<close>

subsection \<open>What the parser emits\<close>

text \<open>
  The handlers of this \<open>FIC_Processor\<close> report what they parsed through \<open>LOG_MESSAGE\<close>
  and what they reject through \<open>LOG_ERROR\<close> (\<open>PRINT_LOG\<close> is 1). The model returns
  these reports as a list of events; the arguments of an event are the values passed
  to the format string of the report, in its order.
\<close>

record FIG_Header_Type_0 =
  cn :: u8
  oe :: u8
  pd :: u8

record EnsembleIdentifier =
  country_id :: u8
  ensemble_reference :: u16

datatype fig_0_0_log = Fig_0_0_log
  (log_eid: EnsembleIdentifier) (log_change_flags: u8) (log_alarm_flag: u8)
  (log_cif_upper: u8) (log_cif_lower: u8)

datatype fig_0_10_log = Fig_0_10_log
  (log_rfu0: u8) (log_MJD: u32) (log_LSI: u8) (log_Rfa0: u8) (log_UTC: u8)
  (log_hours: u8) (log_minutes: u8) (log_seconds: u8) (log_milliseconds: u16)

datatype fig_error =
    Fig_length_overflows_buffer int u8 nat
      \<comment> \<open>"[cif_index] fig specified length overflows buffer
          (fig_length_bytes/nb_remain_bytes)"\<close>
  | Invalid_fig_type u8
      \<comment> \<open>"Invalid fig type (fig_type)"\<close>
  | Fig_0_0_length_mismatch int nat u8
      \<comment> \<open>"[cif_index] fig 0/0 Length doesn't match expectations (nb_field_bytes/N)"\<close>
  | Fig_0_10_insufficient_minimum int nat u8
      \<comment> \<open>"[cif_index] fig 0/10 Insufficient length for minimum configuration
          (nb_min_bytes/N)"\<close>
  | Fig_0_10_insufficient_long_form int nat u8
      \<comment> \<open>"[cif_index] fig 0/10 Insufficient length for long form UTC
          (nb_actual_bytes/N)"\<close>

text \<open>
  \<open>Call_FIG_Type_0_Ext ext header field_buf nb_field_bytes\<close> records the call of one
  of the other extension handlers (\<open>ProcessFIG_Type_0_Ext_1\<close>, \<open>_14\<close>, \<open>_2\<close>, \<open>_3\<close>,
  \<open>_4\<close>, \<open>_8\<close>, \<open>_13\<close>, \<open>_7\<close>, \<open>_6\<close>, \<open>_9\<close>, \<open>_17\<close>, \<open>_21\<close>, \<open>_24\<close>) with the
  arguments it receives: the development does not look inside these handlers.
\<close>

datatype fic_event =
    LOG_MESSAGE_fig_0_0 int fig_0_0_log
  | LOG_MESSAGE_fig_0_10 int fig_0_10_log
  | LOG_ERROR fig_error
  | Call_FIG_Type_0_Ext nat FIG_Header_Type_0 "u8 list" u8 int

subsection \<open>Identifiers\<close>

text \<open>\<open>EnsembleIdentifier::ProcessBuffer\<close>.\<close>

definition EnsembleIdentifier_ProcessBuffer :: "u8 list \<Rightarrow> EnsembleIdentifier option" where
  "EnsembleIdentifier_ProcessBuffer buf = do {
     b0 \<leftarrow> rd buf 0;
     b1 \<leftarrow> rd buf 1;
     Some \<lparr> country_id = drop_bit 4 (b0 AND 0xF0),
            ensemble_reference =
              push_bit 8 (ucast (b0 AND 0x0F) :: u16) OR ucast (drop_bit 0 (b1 AND 0xFF)) \<rparr>
   }"

subsection \<open>FIG 0/0: ensemble information\<close>

definition ProcessFIG_Type_0_Ext_0 ::
  "FIG_Header_Type_0 \<Rightarrow> u8 list \<Rightarrow> u8 \<Rightarrow> int \<Rightarrow> fic_event list option" where
  "ProcessFIG_Type_0_Ext_0 header buf N cif_index =
     (let nb_field_bytes = (4::nat) in
      if unat N \<noteq> nb_field_bytes
      then Some [LOG_ERROR (Fig_0_0_length_mismatch cif_index nb_field_bytes N)]
      else do {
        eid \<leftarrow> EnsembleIdentifier_ProcessBuffer buf;
        b2 \<leftarrow> rd buf 2;
        b3 \<leftarrow> rd buf 3;
        let change_flags = drop_bit 6 (b2 AND 0xC0);
            alarm_flag = drop_bit 5 (b2 AND 0x20);
            cif_upper = drop_bit 0 (b2 AND 0x1F);
            cif_lower = drop_bit 0 (b3 AND 0xFF);
            occurance_change = (0x00 :: u8)
        in Some [LOG_MESSAGE_fig_0_0 cif_index
                   (Fig_0_0_log eid change_flags alarm_flag cif_upper cif_lower)]
      })"

subsection \<open>FIG 0/10: date and time\<close>

definition ProcessFIG_Type_0_Ext_10 ::
  "FIG_Header_Type_0 \<Rightarrow> u8 list \<Rightarrow> u8 \<Rightarrow> int \<Rightarrow> fic_event list option" where
  "ProcessFIG_Type_0_Ext_10 header buf N cif_index =
     (let nb_min_bytes = (4::nat) in
      if nb_min_bytes > unat N
      then Some [LOG_ERROR (Fig_0_10_insufficient_minimum cif_index nb_min_bytes N)]
      else do {
        b0 \<leftarrow> rd buf 0;
        b1 \<leftarrow> rd buf 1;
        b2 \<leftarrow> rd buf 2;
        let rfu0 = drop_bit 7 (b0 AND 0x80);
            MJD = push_bit 10 (ucast (b0 AND 0x7F) :: u32)
                  OR push_bit 2 (ucast (b1 AND 0xFF) :: u32)
                  OR ucast (drop_bit 0 (b2 AND 0xC0));
            LSI = drop_bit 5 (b2 AND 0x20);
            Rfa0 = drop_bit 4 (b2 AND 0x10);
            UTC = drop_bit 3 (b2 AND 0x08);
            nb_actual_bytes = (if UTC \<noteq> 0 then 6 else 4 :: nat)
        in
        if nb_actual_bytes > unat N
        then Some [LOG_ERROR (Fig_0_10_insufficient_long_form cif_index nb_actual_bytes N)]
        else do {
          b3 \<leftarrow> rd buf 3;
          let hours = push_bit 2 (b2 AND 0x07) OR drop_bit 6 (b3 AND 0xC0);
              minutes = drop_bit 0 (b3 AND 0x3F)
          in
          if UTC \<noteq> 0
          then do {
            b4 \<leftarrow> rd buf 4;
            b5 \<leftarrow> rd buf 5;
            let seconds = drop_bit 2 (b4 AND 0xFC);
                milliseconds = push_bit 8 (ucast (b4 AND 0x03) :: u16)
                               OR ucast (drop_bit 0 (b5 AND 0xFF))
            in Some [LOG_MESSAGE_fig_0_10 cif_index
                 (Fig_0_10_log rfu0 MJD LSI Rfa0 UTC hours minutes seconds milliseconds)]
          }
          else Some [LOG_MESSAGE_fig_0_10 cif_index
                 (Fig_0_10_log rfu0 MJD LSI Rfa0 UTC hours minutes 0 0)]
        }
      })"

subsection \<open>Dispatch on the FIG type and on the extension of type 0\<close>

text \<open>The extensions of type 0 that have a handler other than 0 and 10.\<close>

definition other_handled_extensions :: "nat set" where
  "other_handled_extensions = {1, 14, 2, 3, 4, 8, 13, 7, 6, 9, 17, 21, 24}"

definition ProcessFIG_Type_0 :: "u8 list \<Rightarrow> u8 \<Rightarrow> int \<Rightarrow> fic_event list option" where
  "ProcessFIG_Type_0 buf N cif_index = do {
     descriptor \<leftarrow> rd buf 0;
     let header = \<lparr> cn = drop_bit 7 (descriptor AND 0x80),
                    oe = drop_bit 6 (descriptor AND 0x40),
                    pd = drop_bit 5 (descriptor AND 0x20) \<rparr>;
         extension = unat (drop_bit 0 (descriptor AND 0x1F));
         field_buf = drop 1 buf;
         nb_field_bytes = N - 1
     in
     if extension = 0 then ProcessFIG_Type_0_Ext_0 header field_buf nb_field_bytes cif_index
     else if extension = 10 then ProcessFIG_Type_0_Ext_10 header field_buf nb_field_bytes cif_index
     else if extension \<in> other_handled_extensions
     then Some [Call_FIG_Type_0_Ext extension header field_buf nb_field_bytes cif_index]
     else Some []
   }"

text \<open>
  \<open>ProcessFIG_Type_1\<close>, \<open>ProcessFIG_Type_2\<close> and \<open>ProcessFIG_Type_6\<close> read the
  descriptor byte, split it into local constants and report nothing (their
  \<open>LOG_MESSAGE\<close> is commented out).
\<close>

definition ProcessFIG_Type_1 :: "u8 list \<Rightarrow> u8 \<Rightarrow> int \<Rightarrow> fic_event list option" where
  "ProcessFIG_Type_1 buf N cif_index = do { descriptor \<leftarrow> rd buf 0; Some [] }"

definition ProcessFIG_Type_2 :: "u8 list \<Rightarrow> u8 \<Rightarrow> int \<Rightarrow> fic_event list option" where
  "ProcessFIG_Type_2 buf N cif_index = do { descriptor \<leftarrow> rd buf 0; Some [] }"

definition ProcessFIG_Type_6 :: "u8 list \<Rightarrow> u8 \<Rightarrow> int \<Rightarrow> fic_event list option" where
  "ProcessFIG_Type_6 buf N cif_index = do { descriptor \<leftarrow> rd buf 0; Some [] }"

subsection \<open>The scan of one FIB\<close>

text \<open>
  \<open>fig_step buf curr_byte cif_index\<close> is one turn of the \<open>while (curr_byte < N)\<close> loop of
  \<open>ProcessFIG\<close> (\<open>N = 30\<close>): it returns what the turn reports and either the next
  \<open>curr_byte\<close> (the \<open>break\<close> of the \<open>switch\<close>) or nothing (a \<open>return\<close>).
\<close>

definition fig_step :: "u8 list \<Rightarrow> nat \<Rightarrow> int \<Rightarrow> (fic_event list \<times> nat option) option" where
  "fig_step buf curr_byte cif_index = do {
     let nb_remain_bytes = 30 - curr_byte;
     header \<leftarrow> rd buf curr_byte;
     if header = 0xFF then Some ([], None)
     else
       let fig_type = drop_bit 5 (header AND 0xE0);
           fig_data_length_bytes = drop_bit 0 (header AND 0x1F);
           fig_length_bytes = fig_data_length_bytes + 1
       in
       if unat fig_length_bytes > nb_remain_bytes
       then Some ([LOG_ERROR (Fig_length_overflows_buffer cif_index fig_length_bytes nb_remain_bytes)],
                  None)
       else
         let fig_buf = drop (curr_byte + 1) buf;
             next_byte = curr_byte + unat fig_length_bytes
         in
         if fig_type = 0 then do {
           evs \<leftarrow> ProcessFIG_Type_0 fig_buf fig_data_length_bytes cif_index;
           Some (evs, Some next_byte) }
         else if fig_type = 1 then do {
           evs \<leftarrow> ProcessFIG_Type_1 fig_buf fig_data_length_bytes cif_index;
           Some (evs, Some next_byte) }
         else if fig_type = 2 then do {
           evs \<leftarrow> ProcessFIG_Type_2 fig_buf fig_data_length_bytes cif_index;
           Some (evs, Some next_byte) }
         else if fig_type = 6 then do {
           evs \<leftarrow> ProcessFIG_Type_6 fig_buf fig_data_length_bytes cif_index;
           Some (evs, Some next_byte) }
         else if fig_type = 7 then Some ([], None)
         else Some ([LOG_ERROR (Invalid_fig_type fig_type)], None)
   }"

text \<open>
  The loop itself, from a given \<open>curr_byte\<close>; \<open>ProcessFIG\<close> enters it at \<open>0\<close>. Every
  turn that continues advances \<open>curr_byte\<close> by \<open>fig_length_bytes\<close>, which is at least
  one, so the loop ends.
\<close>

lemma fig_length_bytes_pos: "0 < unat (drop_bit 0 (header AND (0x1F::u8)) + 1)"
proof -
  have "unat (header AND (0x1F::u8)) \<le> unat (0x1F::u8)"
    by (rule word_and_le1 [THEN word_le_nat_alt [THEN iffD1]])
  then have "unat (header AND (0x1F::u8)) + unat (1::u8) < 2 ^ LENGTH(8)"
    by simp
  then have "unat ((header AND (0x1F::u8)) + 1) = unat (header AND (0x1F::u8)) + unat (1::u8)"
    by (rule unat_add_lem [THEN iffD1])
  then show ?thesis by simp
qed

lemma fig_step_advances:
  assumes "fig_step buf curr_byte cif_index = Some (evs, Some next_byte)"
  shows "curr_byte < next_byte"
proof -
  obtain header where h: "rd buf curr_byte = Some header"
    using assms by (cases "rd buf curr_byte") (simp_all add: fig_step_def)
  have "next_byte = curr_byte + unat (drop_bit 0 (header AND (0x1F::u8)) + 1)"
    using assms h
    by (auto simp add: fig_step_def Let_def split: if_splits bind_splits)
  then show ?thesis
    using fig_length_bytes_pos [of header] by linarith
qed

function ProcessFIG_from :: "u8 list \<Rightarrow> nat \<Rightarrow> int \<Rightarrow> fic_event list option" where
  "ProcessFIG_from buf curr_byte cif_index =
     (if curr_byte < 30 then
        (case fig_step buf curr_byte cif_index of
           None \<Rightarrow> None
         | Some (evs, None) \<Rightarrow> Some evs
         | Some (evs, Some next_byte) \<Rightarrow>
             map_option ((@) evs) (ProcessFIG_from buf next_byte cif_index))
      else Some [])"
  by pat_completeness auto
termination
proof (relation "measure (\<lambda>(buf, curr_byte, cif_index). 30 - curr_byte)")
  show "wf (measure (\<lambda>(buf, curr_byte, cif_index). 30 - curr_byte))"
    by simp
next
  fix buf :: "u8 list" and curr_byte :: nat and cif_index :: int
    and x2 :: "fic_event list \<times> nat option" and evs :: "fic_event list"
    and y :: "nat option" and next_byte :: nat
  assume "curr_byte < 30" "fig_step buf curr_byte cif_index = Some x2"
    "(evs, y) = x2" "y = Some next_byte"
  then have "fig_step buf curr_byte cif_index = Some (evs, Some next_byte)"
    by simp
  then have "curr_byte < next_byte"
    by (rule fig_step_advances)
  with \<open>curr_byte < 30\<close>
  show "((buf, next_byte, cif_index), (buf, curr_byte, cif_index))
        \<in> measure (\<lambda>(buf, curr_byte, cif_index). 30 - curr_byte)"
    by simp
qed

declare ProcessFIG_from.simps [simp del]

definition ProcessFIG :: "u8 list \<Rightarrow> int \<Rightarrow> fic_event list option" where
  "ProcessFIG buf cif_index = ProcessFIG_from buf 0 cif_index"

subsection \<open>The CRC check of \<open>ProcessFIBGroup\<close>\<close>

text \<open>
  The body of the loop \<open>for (int i = 0; i < 3; i++)\<close> that ends \<open>ProcessFIBGroup\<close>, for
  the FIB at \<open>fib_buf = &decoded_bytes[i*nb_fib_bytes]\<close> (\<open>nb_fib_bytes = 32\<close>,
  \<open>nb_data_bytes = 30\<close>): the received CRC is the last two bytes, inverted; the FIB
  goes to \<open>ProcessFIG\<close> when it equals the CRC computed over the first 30 bytes.
\<close>

definition crc16_rx :: "u8 list \<Rightarrow> u16 option" where
  "crc16_rx fib_buf = do {
     hi \<leftarrow> rd fib_buf 30;
     lo \<leftarrow> rd fib_buf 31;
     Some ((push_bit 8 (ucast hi :: u16) OR ucast lo) XOR 0xFFFF)
   }"

definition ProcessFIBGroup_fib :: "u8 list \<Rightarrow> int \<Rightarrow> fic_event list option" where
  "ProcessFIBGroup_fib fib_buf cif_index = do {
     rx \<leftarrow> crc16_rx fib_buf;
     let crc16_pred = CRC_Calculate (take 30 fib_buf);
         is_valid = (rx = crc16_pred)
     in if is_valid then ProcessFIG fib_buf cif_index else Some []
   }"

function ProcessFIBGroup_crc_loop :: "u8 list \<Rightarrow> nat \<Rightarrow> int \<Rightarrow> fic_event list option" where
  "ProcessFIBGroup_crc_loop decoded_bytes i cif_index =
     (if i < 3 then do {
        evs \<leftarrow> ProcessFIBGroup_fib (drop (i * 32) decoded_bytes) cif_index;
        rest \<leftarrow> ProcessFIBGroup_crc_loop decoded_bytes (i + 1) cif_index;
        Some (evs @ rest)
      }
      else Some [])"
  by pat_completeness auto
termination
  by (relation "measure (\<lambda>(decoded_bytes, i, cif_index). 3 - i)") auto

declare ProcessFIBGroup_crc_loop.simps [simp del]

section \<open>The callbacks of \<open>Basic_DAB_Plus_Channel\<close>\<close>

text \<open>
  \<open>SetupCallbacks\<close> attaches listeners to the observables of the AAC frame processor
  and of the PAD processor. A notification runs the listeners of its observable in
  the order they were attached, on the emitter's thread. The model keeps the members
  of the channel that these listeners write, takes one notification as an event and
  returns the channel after its listeners have run.

  The AAC frame processor, the AAC audio decoder and the PAD processor are not part
  of the channel: the header of a superframe and the outcome \<open>res.is_error\<close> of
  \<open>DecodeFrame\<close> arrive with the event.
\<close>

record SuperFrameHeader =
  sampling_rate :: nat
  PS_flag :: bool
  SBR_flag :: bool
  is_stereo :: bool

record AAC_Audio_Decoder_Params =
  sampling_frequency :: nat
  is_PS :: bool
  is_SBR :: bool
  params_is_stereo :: bool

record Basic_DAB_Plus_Channel =
  m_controls :: u8
  m_super_frame_header :: SuperFrameHeader
  m_aac_audio_decoder :: "AAC_Audio_Decoder_Params option"
  m_dynamic_label :: string
  m_is_codec_error :: bool
  m_is_firecode_error :: bool
  m_is_rs_error :: bool
  m_is_au_error :: bool

datatype channel_event =
    OnSuperFrameHeader SuperFrameHeader
  | OnAccessUnit int int "u8 list" bool
      \<comment> \<open>\<open>au_index\<close>, \<open>nb_aus\<close>, \<open>buf\<close>, and \<open>res.is_error\<close> of \<open>DecodeFrame(buf)\<close>\<close>
  | OnFirecodeError int u16 u16
  | OnRSError int int
  | OnAccessUnitCRCError int int u16 u16
  | OnLabelUpdate string u8
  | OnMOTUpdate

text \<open>The first listener of \<open>OnSuperFrameHeader\<close>: keep the header, replace the decoder
  when there is none or its parameters differ.\<close>

definition on_header_replace_decoder ::
  "SuperFrameHeader \<Rightarrow> Basic_DAB_Plus_Channel \<Rightarrow> Basic_DAB_Plus_Channel" where
  "on_header_replace_decoder header c =
     (let c1 = c\<lparr>m_super_frame_header := header\<rparr>;
          audio_params = \<lparr> sampling_frequency = sampling_rate header,
                           is_PS = PS_flag header,
                           is_SBR = SBR_flag header,
                           params_is_stereo = is_stereo header \<rparr>;
          replace_decoder =
            (m_aac_audio_decoder c1 = None \<or> m_aac_audio_decoder c1 \<noteq> Some audio_params)
      in if replace_decoder then c1\<lparr>m_aac_audio_decoder := Some audio_params\<rparr> else c1)"

text \<open>The second listener of \<open>OnSuperFrameHeader\<close>.\<close>

definition on_header_clear_errors :: "Basic_DAB_Plus_Channel \<Rightarrow> Basic_DAB_Plus_Channel" where
  "on_header_clear_errors c = c\<lparr>m_is_firecode_error := False, m_is_rs_error := False\<rparr>"

text \<open>The first listener of \<open>OnAccessUnit\<close>: decode audio. The audio it notifies to
  \<open>m_obs_audio_data\<close> is not a member of the channel.\<close>

definition on_access_unit_decode_audio ::
  "int \<Rightarrow> bool \<Rightarrow> Basic_DAB_Plus_Channel \<Rightarrow> Basic_DAB_Plus_Channel" where
  "on_access_unit_decode_audio au_index res_is_error c =
     (if \<not> GetIsDecodeAudio (m_controls c) then c
      else if m_aac_audio_decoder c = None then c
      else
        let c1 = (if au_index = 0 then c\<lparr>m_is_codec_error := res_is_error\<rparr> else c)
        in if res_is_error then c1\<lparr>m_is_codec_error := True\<rparr> else c1)"

text \<open>The third listener of \<open>OnAccessUnit\<close> (the second hands the access unit to the
  AAC data decoder and writes no member of the channel).\<close>

definition on_access_unit_clear_au_error ::
  "int \<Rightarrow> Basic_DAB_Plus_Channel \<Rightarrow> Basic_DAB_Plus_Channel" where
  "on_access_unit_clear_au_error au_index c =
     (if au_index = 0 then c\<lparr>m_is_au_error := False\<rparr> else c)"

fun Notify :: "channel_event \<Rightarrow> Basic_DAB_Plus_Channel \<Rightarrow> Basic_DAB_Plus_Channel" where
  "Notify (OnSuperFrameHeader header) c =
     on_header_clear_errors (on_header_replace_decoder header c)"
| "Notify (OnAccessUnit au_index nb_aus buf res_is_error) c =
     on_access_unit_clear_au_error au_index
       (on_access_unit_decode_audio au_index res_is_error c)"
| "Notify (OnFirecodeError frame_index crc_got crc_calc) c = c\<lparr>m_is_firecode_error := True\<rparr>"
| "Notify (OnRSError au_index total_aus) c = c\<lparr>m_is_rs_error := True\<rparr>"
| "Notify (OnAccessUnitCRCError au_index nb_aus crc_got crc_calc) c = c\<lparr>m_is_au_error := True\<rparr>"
| "Notify (OnLabelUpdate label_str charset) c = c\<lparr>m_dynamic_label := label_str\<rparr>"
| "Notify OnMOTUpdate c = c"

text \<open>A sequence of notifications, handled one after the other.\<close>

fun Notify_all :: "channel_event list \<Rightarrow> Basic_DAB_Plus_Channel \<Rightarrow> Basic_DAB_Plus_Channel" where
  "Notify_all [] c = c"
| "Notify_all (e # es) c = Notify_all es (Notify e c)"

text \<open>Which events are which, for the statements about the error flags.\<close>

fun is_header :: "channel_event \<Rightarrow> bool" where
  "is_header (OnSuperFrameHeader header) = True"
| "is_header e = False"

fun is_first_access_unit :: "channel_event \<Rightarrow> bool" where
  "is_first_access_unit (OnAccessUnit au_index nb_aus buf res_is_error) = (au_index = 0)"
| "is_first_access_unit e = False"

fun is_firecode_error :: "channel_event \<Rightarrow> bool" where
  "is_firecode_error (OnFirecodeError frame_index crc_got crc_calc) = True"
| "is_firecode_error e = False"

fun is_rs_error :: "channel_event \<Rightarrow> bool" where
  "is_rs_error (OnRSError au_index total_aus) = True"
| "is_rs_error e = False"

fun is_au_crc_error :: "channel_event \<Rightarrow> bool" where
  "is_au_crc_error (OnAccessUnitCRCError au_index nb_aus crc_got crc_calc) = True"
| "is_au_crc_error e = False"

text \<open>
  A channel right after its constructor, used in the examples: no audio decoder
  (\<open>m_aac_audio_decoder = NULL\<close>), nothing selected, no error flagged.
\<close>

definition example_channel :: Basic_DAB_Plus_Channel where
  "example_channel =
     \<lparr> m_controls = 0,
       m_super_frame_header =
         \<lparr>sampling_rate = 0, PS_flag = False, SBR_flag = False, is_stereo = False\<rparr>,
       m_aac_audio_decoder = None,
       m_dynamic_label = [],
       m_is_codec_error = False,
       m_is_firecode_error = False,
       m_is_rs_error = False,
       m_is_au_error = False \<rparr>"

text \<open>A superframe header as the frame processor would notify it (48 kHz, SBR, stereo).\<close>

definition example_header :: SuperFrameHeader where
  "example_header = \<lparr>sampling_rate = 48000, PS_flag = False, SBR_flag = True, is_stereo = True\<rparr>"

section \<open>Depuncturing in \<open>DAB_Viterbi_Decoder::update\<close>\<close>

text \<open>
  The wrapper owns the vector \<open>depunctured_symbols\<close> and the decoder core
  (\<open>ExternalDecoder\<close>, selected at compile time from headers that are not among the
  sources). The model keeps the core as a value of any type \<open>'d\<close> and takes its
  \<open>update\<close> as the parameter \<open>ExternalDecoder_update\<close>, applied to the
  \<open>requested_output_symbols\<close> symbols that start at \<open>depunctured_symbols.data()\<close>.

  \<open>viterbi_bit_t\<close> is the 8-bit signed soft decision of the spec;
  \<open>int16_t(punctured_symbols[k])\<close> is its sign extension \<open>scast\<close>. The constant
  \<open>soft_decision_unpunctured\<close> of the source is the parameter \<open>unpunctured\<close>.
  \<open>code_rate\<close> is the \<open>R\<close> of \<open>code_polynomial[R] = { 109, 79, 83, 109 }\<close>.
  \<open>ndebug\<close> tells whether the build defines \<open>NDEBUG\<close>, that is whether \<open>assert\<close>
  is compiled away.
\<close>

type_synonym viterbi_bit_t = "8 word"

definition code_rate :: nat where
  "code_rate = 4"

text \<open>
  Modelled from the spec: the macros \<open>SOFT_DECISION_VITERBI_LOW\<close>,
  \<open>SOFT_DECISION_VITERBI_HIGH\<close> and \<open>SOFT_DECISION_VITERBI_PUNCTURED\<close>, which the source
  converts to \<open>soft_decision_low\<close>, \<open>soft_decision_high\<close> and
  \<open>soft_decision_unpunctured\<close>, are defined in a header that is not among the
  sources. The spec fixes a \<open>SOFT_LOW\<close> and a \<open>SOFT_HIGH\<close>, here parameters, and
  places the punctured symbol ``midway between \<open>SOFT_LOW\<close> and \<open>SOFT_HIGH\<close>''.
\<close>

definition SOFT_DECISION_VITERBI_PUNCTURED :: "i16 \<Rightarrow> i16 \<Rightarrow> i16" where
  "SOFT_DECISION_VITERBI_PUNCTURED soft_low soft_high =
     word_of_int ((sint soft_low + sint soft_high) div 2)"

record 'd DAB_Viterbi_Decoder =
  depunctured_symbols :: "i16 list"
  decoder :: 'd

datatype depuncture_loop_result =
    Loop_done nat "i16 list"
      \<comment> \<open>the loop ran to its end: \<open>index_punctured_symbol\<close> and the vector\<close>
  | Loop_return_0 "i16 list"
      \<comment> \<open>the failsafe \<open>return 0\<close>, with the vector as written so far\<close>
  | Loop_assert_failed
      \<comment> \<open>\<open>assert(index_punctured_symbol < total_symbols)\<close> aborts\<close>
  | Loop_out_of_span
      \<comment> \<open>\<open>puncture_code[index_puncture_code]\<close> outside the span: undefined behaviour\<close>

function depuncture_loop ::
  "bool \<Rightarrow> i16 \<Rightarrow> viterbi_bit_t list \<Rightarrow> u8 list \<Rightarrow> nat \<Rightarrow>
   nat \<Rightarrow> nat \<Rightarrow> nat \<Rightarrow> i16 list \<Rightarrow> depuncture_loop_result" where
  "depuncture_loop ndebug unpunctured punctured_symbols puncture_code requested_output_symbols
     i index_punctured_symbol index_puncture_code depunctured =
     (if i < requested_output_symbols then
        (if length puncture_code \<le> index_puncture_code then Loop_out_of_span
         else
           let is_punctured = (puncture_code ! index_puncture_code \<noteq> 0) in
           if is_punctured then
             (if length punctured_symbols \<le> index_punctured_symbol
              then (if ndebug then Loop_return_0 depunctured else Loop_assert_failed)
              else depuncture_loop ndebug unpunctured punctured_symbols puncture_code
                     requested_output_symbols (i + 1) (index_punctured_symbol + 1)
                     ((index_puncture_code + 1) mod length puncture_code)
                     (depunctured[i := scast (punctured_symbols ! index_punctured_symbol)]))
           else depuncture_loop ndebug unpunctured punctured_symbols puncture_code
                  requested_output_symbols (i + 1) index_punctured_symbol
                  ((index_puncture_code + 1) mod length puncture_code)
                  (depunctured[i := unpunctured]))
      else Loop_done index_punctured_symbol depunctured)"
  by pat_completeness auto
termination
  by (relation "measure (\<lambda>(ndebug, unpunctured, punctured_symbols, puncture_code,
        requested_output_symbols, i, rest). requested_output_symbols - i)") auto

declare depuncture_loop.simps [simp del]

datatype 'd update_result =
    Update_returned nat "'d DAB_Viterbi_Decoder"
  | Update_assert_failed
  | Update_undefined

definition update ::
  "bool \<Rightarrow> i16 \<Rightarrow> ('d \<Rightarrow> i16 list \<Rightarrow> 'd) \<Rightarrow> 'd DAB_Viterbi_Decoder \<Rightarrow>
   viterbi_bit_t list \<Rightarrow> u8 list \<Rightarrow> nat \<Rightarrow> 'd update_result" where
  "update ndebug unpunctured ExternalDecoder_update self punctured_symbols puncture_code
     requested_output_symbols =
     (if \<not> ndebug \<and> requested_output_symbols mod code_rate \<noteq> 0 then Update_assert_failed
      else
        let resized =
              (if requested_output_symbols > length (depunctured_symbols self)
               then depunctured_symbols self
                      @ replicate (requested_output_symbols - length (depunctured_symbols self)) 0
               else depunctured_symbols self)
        in
        case depuncture_loop ndebug unpunctured punctured_symbols puncture_code
               requested_output_symbols 0 0 0 resized of
          Loop_out_of_span \<Rightarrow> Update_undefined
        | Loop_assert_failed \<Rightarrow> Update_assert_failed
        | Loop_return_0 depunctured \<Rightarrow>
            Update_returned 0 (self\<lparr>depunctured_symbols := depunctured\<rparr>)
        | Loop_done index_punctured_symbol depunctured \<Rightarrow>
            Update_returned index_punctured_symbol
              \<lparr> depunctured_symbols = depunctured,
                decoder = ExternalDecoder_update (decoder self)
                            (take requested_output_symbols depunctured) \<rparr>)"

text \<open>
  The words of the claim about the puncture code: the flag of the cyclic code at
  output position \<open>i\<close>, and the number of positions before \<open>i\<close> whose flag is set
  (the symbols transmitted for them).
\<close>

definition cyclic_puncture_flag :: "u8 list \<Rightarrow> nat \<Rightarrow> bool" where
  "cyclic_puncture_flag puncture_code i = (puncture_code ! (i mod length puncture_code) \<noteq> 0)"

definition transmitted_before :: "u8 list \<Rightarrow> nat \<Rightarrow> nat" where
  "transmitted_before puncture_code i = length (filter (cyclic_puncture_flag puncture_code) [0..<i])"

definition depunctured_symbol :: "i16 \<Rightarrow> viterbi_bit_t list \<Rightarrow> u8 list \<Rightarrow> nat \<Rightarrow> i16" where
  "depunctured_symbol unpunctured punctured_symbols puncture_code i =
     (if cyclic_puncture_flag puncture_code i
      then scast (punctured_symbols ! transmitted_before puncture_code i)
      else unpunctured)"

section \<open>The MOT segment assembler\<close>














section \<open>\<open>FIC_Processor::ProcessFIBGroup\<close>\<close>

text \<open>
  \<open>ProcessFIBGroup\<close> works with three classes whose code is not among the sources:
  \<open>ViterbiDecoder\<close> (with its \<open>Trellis\<close>), \<open>AdditiveScrambler\<close> and the puncture
  tables of \<open>puncture_codes.h\<close>. The model takes them as parameters: the state of a
  decoder is a value of any type \<open>'v\<close>, that of a scrambler of any type \<open>'s\<close>, and
  their member functions are the fields of \<open>FIC_collaborators\<close>.

  A call \<open>vitdec->Decode(encoded_bits, nb_encoded_bits, puncture_code,
  nb_puncture_bits, decoded_bits, nb_decoded_bits, a7, a8)\<close> is described by a
  \<open>Decode_call\<close>: the two arrays are the memory from the pointer passed to the end of
  the array pointed into. The names of the last two parameters are in the missing
  header; the spec reads them as the number of output bits of the run and as the
  flag of the terminated (tail) run. The function returns its \<open>DecodeResult\<close>, the
  memory behind \<open>decoded_bits\<close> as the call leaves it, and the decoder.
\<close>

record DecodeResult =
  nb_encoded_bits :: int
  nb_puncture_bits :: int
  nb_decoded_bits :: int

record Decode_call =
  call_encoded_bits :: "u8 list"
  call_nb_encoded_bits :: int
  call_puncture_code :: "u8 list"
  call_nb_puncture_bits :: int
  call_decoded_bits :: "u8 list"
  call_nb_decoded_bits :: int
  call_nb_output_bits :: int
  call_is_terminated :: bool

record ('v, 's) FIC_collaborators =
  Trellis_ViterbiDecoder_new :: "u8 list \<Rightarrow> int \<Rightarrow> int \<Rightarrow> int \<Rightarrow> 'v"
  ViterbiDecoder_Reset :: "'v \<Rightarrow> 'v"
  ViterbiDecoder_Decode :: "'v \<Rightarrow> Decode_call \<Rightarrow> DecodeResult \<times> u8 list \<times> 'v"
  ViterbiDecoder_GetPathError :: "'v \<Rightarrow> u32"
  AdditiveScrambler_new :: "'s"
  AdditiveScrambler_SetSyncword :: "u16 \<Rightarrow> 's \<Rightarrow> 's"
  AdditiveScrambler_Reset :: "'s \<Rightarrow> 's"
  AdditiveScrambler_Process :: "'s \<Rightarrow> u8 \<times> 's"
  PI_16 :: "u8 list"
  PI_15 :: "u8 list"
  PI_X :: "u8 list"

text \<open>
  The processor: its decoder, its scrambler, and the three arrays that
  \<open>ProcessFIBGroup\<close> declares \<open>static\<close> (allocated once with 2304, 768 and 96
  elements and kept from call to call).
\<close>

record ('v, 's) FIC_Processor =
  vitdec :: 'v
  scrambler :: 's
  static_encoded_bits :: "u8 list"
  static_decoded_bits :: "u8 list"
  static_decoded_bytes :: "u8 list"

text \<open>The constructor; the argument gives the contents of the static arrays, which
  the first call of \<open>ProcessFIBGroup\<close> finds uninitialised.\<close>

definition FIC_Processor_new ::
  "('v, 's) FIC_collaborators \<Rightarrow> u8 list \<times> u8 list \<times> u8 list \<Rightarrow> ('v, 's) FIC_Processor" where
  "FIC_Processor_new ext uninitialised =
     (let L = 4; K = 7; traceback_length = 15;
          CONV_CODES = [0x6D, 0x4F, 0x53, 0x6D]
      in \<lparr> vitdec = Trellis_ViterbiDecoder_new ext CONV_CODES L K traceback_length,
            scrambler = AdditiveScrambler_SetSyncword ext 0xFFFF (AdditiveScrambler_new ext),
            static_encoded_bits = fst uninitialised,
            static_decoded_bits = fst (snd uninitialised),
            static_decoded_bytes = snd (snd uninitialised) \<rparr>)"

text \<open>A \<open>for\<close> loop over \<open>0 \<le> i < n\<close> is a \<open>fold\<close> over \<open>[0..<n]\<close>.\<close>

text \<open>Unpacking: \<open>encoded_bits[8*i + j] = (b >> j) & 0b1\<close>.\<close>

definition unpack_bits :: "u8 list \<Rightarrow> u8 list \<Rightarrow> u8 list" where
  "unpack_bits encoded_bytes encoded_bits =
     fold (\<lambda>i bits.
             let b = encoded_bytes ! i
             in fold (\<lambda>j bits. bits[8 * i + j := drop_bit j b AND 1]) [0..<8] bits)
          [0..<288] encoded_bits"

text \<open>\<open>&array[k]\<close>: defined for \<open>0 \<le> k \<le> size\<close>.\<close>

definition pointer_into :: "u8 list \<Rightarrow> int \<Rightarrow> u8 list option" where
  "pointer_into array k =
     (if 0 \<le> k \<and> k \<le> int (length array) then Some (drop (nat k) array) else None)"

text \<open>
  One call of \<open>Decode\<close> on \<open>&encoded_bits[curr_encoded_bit]\<close> and
  \<open>&decoded_bits[curr_decoded_bit]\<close>, returning the result, the whole array
  \<open>decoded_bits\<close> after the call and the decoder. A parameter function that returns
  a memory of another size than it was given is no C function: \<open>None\<close>.
\<close>

definition Decode_at ::
  "('v, 's) FIC_collaborators \<Rightarrow> 'v \<Rightarrow> u8 list \<Rightarrow> int \<Rightarrow> u8 list \<Rightarrow> int \<Rightarrow>
   u8 list \<Rightarrow> int \<Rightarrow> int \<Rightarrow> bool \<Rightarrow> (DecodeResult \<times> u8 list \<times> 'v) option" where
  "Decode_at ext v encoded_bits curr_encoded_bit puncture_code puncture_code_bits
     decoded_bits curr_decoded_bit nb_output_bits is_terminated = do {
     encoded_ptr \<leftarrow> pointer_into encoded_bits curr_encoded_bit;
     decoded_ptr \<leftarrow> pointer_into decoded_bits curr_decoded_bit;
     let (res, written, v') =
           ViterbiDecoder_Decode ext v
             \<lparr> call_encoded_bits = encoded_ptr,
               call_nb_encoded_bits = 2304 - curr_encoded_bit,
               call_puncture_code = puncture_code,
               call_nb_puncture_bits = puncture_code_bits,
               call_decoded_bits = decoded_ptr,
               call_nb_decoded_bits = 768 - curr_decoded_bit,
               call_nb_output_bits = nb_output_bits,
               call_is_terminated = is_terminated \<rparr>
     in if length written = length decoded_ptr
        then Some (res, take (nat curr_decoded_bit) decoded_bits @ written, v')
        else None
   }"

text \<open>Packing: \<open>b = 0x00; b |= (decoded_bits[8*i + j] << (7-j))\<close>, the result cut to
  the 8 bits of \<open>b\<close>.\<close>

definition pack_bits :: "u8 list \<Rightarrow> u8 list \<Rightarrow> u8 list" where
  "pack_bits decoded_bits decoded_bytes =
     fold (\<lambda>i bytes.
             bytes[i := fold (\<lambda>j b. b OR push_bit (7 - j) (decoded_bits ! (8 * i + j)))
                          [0..<8] 0x00])
          [0..<96] decoded_bytes"

text \<open>Descrambling: \<open>decoded_bytes[i] ^= scrambler->Process()\<close>.\<close>

definition descramble ::
  "('v, 's) FIC_collaborators \<Rightarrow> u8 list \<times> 's \<Rightarrow> u8 list \<times> 's" where
  "descramble ext =
     fold (\<lambda>i (bytes, s).
             let (b, s') = AdditiveScrambler_Process ext s
             in (bytes[i := bytes ! i XOR b], s'))
          [0..<96]"

definition ProcessFIBGroup ::
  "('v, 's) FIC_collaborators \<Rightarrow> ('v, 's) FIC_Processor \<Rightarrow> u8 list \<Rightarrow> int \<Rightarrow>
   (fic_event list \<times> ('v, 's) FIC_Processor) option" where
  "ProcessFIBGroup ext self encoded_bytes cif_index =
     (if length encoded_bytes < 288 \<or> length (static_encoded_bits self) \<noteq> 2304
         \<or> length (static_decoded_bits self) \<noteq> 768 \<or> length (static_decoded_bytes self) \<noteq> 96
      then None
      else do {
        let encoded_bits = unpack_bits encoded_bytes (static_encoded_bits self);
        let curr_encoded_bit = 0;
        let curr_puncture_bit = 0;
        let curr_decoded_bit = 0;
        let v0 = ViterbiDecoder_Reset ext (vitdec self);
        (res1, decoded_bits1, v1) \<leftarrow>
          Decode_at ext v0 encoded_bits curr_encoded_bit (PI_16 ext) 32
            (static_decoded_bits self) curr_decoded_bit (128 * 21) False;
        let curr_encoded_bit = curr_encoded_bit + nb_encoded_bits res1;
        let curr_puncture_bit = curr_puncture_bit + nb_puncture_bits res1;
        let curr_decoded_bit = curr_decoded_bit + nb_decoded_bits res1;
        (res2, decoded_bits2, v2) \<leftarrow>
          Decode_at ext v1 encoded_bits curr_encoded_bit (PI_15 ext) 32
            decoded_bits1 curr_decoded_bit (128 * 3) False;
        let curr_encoded_bit = curr_encoded_bit + nb_encoded_bits res2;
        let curr_puncture_bit = curr_puncture_bit + nb_puncture_bits res2;
        let curr_decoded_bit = curr_decoded_bit + nb_decoded_bits res2;
        (res3, decoded_bits3, v3) \<leftarrow>
          Decode_at ext v2 encoded_bits curr_encoded_bit (PI_X ext) 24
            decoded_bits2 curr_decoded_bit 24 True;
        let error = ViterbiDecoder_GetPathError ext v3;
        let decoded_bytes = pack_bits decoded_bits3 (static_decoded_bytes self);
        let (decoded_bytes, s) =
              descramble ext (decoded_bytes, AdditiveScrambler_Reset ext (scrambler self));
        events \<leftarrow> ProcessFIBGroup_crc_loop decoded_bytes 0 cif_index;
        Some (events,
              \<lparr> vitdec = v3, scrambler = s,
                static_encoded_bits = encoded_bits,
                static_decoded_bits = decoded_bits3,
                static_decoded_bytes = decoded_bytes \<rparr>)
      })"

text \<open>
  The words of the claim about the steps: the bits of a byte, least significant
  first; the byte of eight bits, most significant first; the first \<open>n\<close> bytes that
  a scrambler delivers.
\<close>

definition bits_of_byte :: "u8 \<Rightarrow> u8 list" where
  "bits_of_byte b = map (\<lambda>j. drop_bit j b AND 1) [0..<8]"

definition byte_of_bits :: "u8 list \<Rightarrow> nat \<Rightarrow> u8" where
  "byte_of_bits bits i =
     push_bit 7 (bits ! (8 * i)) OR push_bit 6 (bits ! (8 * i + 1))
     OR push_bit 5 (bits ! (8 * i + 2)) OR push_bit 4 (bits ! (8 * i + 3))
     OR push_bit 3 (bits ! (8 * i + 4)) OR push_bit 2 (bits ! (8 * i + 5))
     OR push_bit 1 (bits ! (8 * i + 6)) OR push_bit 0 (bits ! (8 * i + 7))"

fun scrambler_state :: "('v, 's) FIC_collaborators \<Rightarrow> nat \<Rightarrow> 's \<Rightarrow> 's" where
  "scrambler_state ext 0 s = s"
| "scrambler_state ext (Suc n) s = snd (AdditiveScrambler_Process ext (scrambler_state ext n s))"

definition scrambler_sequence :: "('v, 's) FIC_collaborators \<Rightarrow> nat \<Rightarrow> 's \<Rightarrow> u8 list" where
  "scrambler_sequence ext n s =
     map (\<lambda>k. fst (AdditiveScrambler_Process ext (scrambler_state ext k s))) [0..<n]"

text \<open>
  For an example of a whole run: collaborators that can be followed by hand, and a
  group of three FIBs that comes out of the run.

  The eight bits of a byte, most significant first, as the decoder delivers them.
\<close>

definition msb_first_bits :: "u8 \<Rightarrow> u8 list" where
  "msb_first_bits b = map (\<lambda>j. drop_bit (7 - j) b AND 1) [0..<8]"

text \<open>Three FIBs: two that carry a FIG 0/0 and have a valid CRC, with a FIB of zeros
  between them.\<close>

definition example_fibs :: "u8 list" where
  "example_fibs =
     [0x05, 0x00, 0xC0, 0x12, 0x05, 0x32, 0xFF] @ replicate 23 0 @ [0x1C, 0xFF]
     @ replicate 32 0
     @ [0x05, 0x00, 0xC0, 0x12, 0x05, 0x32, 0xFF] @ replicate 23 0 @ [0x1C, 0xFF]"

text \<open>The 768 bits that descramble to these FIBs under the scrambler below seeded
  with \<open>0xFFFF\<close>: byte \<open>k\<close> of the FIBs XORed with \<open>0xFF + k\<close>.\<close>

definition example_decoded_bits :: "u8 list" where
  "example_decoded_bits =
     concat (map (\<lambda>k. msb_first_bits (example_fibs ! k XOR (0xFF + of_nat k))) [0..<96])"

text \<open>
  A decoder whose state is the list of the calls it has received since its last
  reset, each kept with the first eight of the encoded bits it was given and
  without the decoded bits. For a call it reports as consumed the encoded bits
  that the puncture code transmits for the output bits asked for (the flags set in
  the code, once for each full cycle), as produced one decoded bit for four output
  bits, as far as the array given has room; and it writes the bits above, from the
  position in the 768 bits that the room left tells.
\<close>

definition example_Decode ::
  "Decode_call list \<Rightarrow> Decode_call \<Rightarrow> DecodeResult \<times> u8 list \<times> Decode_call list" where
  "example_Decode v call =
     (let produced = min (nat (call_nb_output_bits call) div 4) (nat (call_nb_decoded_bits call));
          start = 768 - nat (call_nb_decoded_bits call);
          cycles = call_nb_output_bits call div call_nb_puncture_bits call;
          transmitted = int (length (filter (\<lambda>flag. flag \<noteq> 0) (call_puncture_code call)))
      in (\<lparr> nb_encoded_bits = cycles * transmitted,
            nb_puncture_bits = call_nb_output_bits call,
            nb_decoded_bits = int produced \<rparr>,
          take produced (drop start example_decoded_bits)
            @ drop produced (call_decoded_bits call),
          v @ [call\<lparr> call_encoded_bits := take 8 (call_encoded_bits call),
                     call_decoded_bits := [] \<rparr>]))"

text \<open>
  The scrambler keeps the syncword and the number of bytes delivered since the
  reset; its byte \<open>k\<close> is the low byte of the syncword plus \<open>k\<close>. The puncture
  tables transmit 24 of 32, 23 of 32 and 12 of 24 output bits.
\<close>

definition example_collaborators :: "(Decode_call list, u16 \<times> nat) FIC_collaborators" where
  "example_collaborators =
     \<lparr> Trellis_ViterbiDecoder_new = (\<lambda>codes L K traceback_length. []),
       ViterbiDecoder_Reset = (\<lambda>v. []),
       ViterbiDecoder_Decode = example_Decode,
       ViterbiDecoder_GetPathError = (\<lambda>v. 0),
       AdditiveScrambler_new = (0, 0),
       AdditiveScrambler_SetSyncword = (\<lambda>syncword s. (syncword, snd s)),
       AdditiveScrambler_Reset = (\<lambda>s. (fst s, 0)),
       AdditiveScrambler_Process =
         (\<lambda>s. (ucast (fst s) + of_nat (snd s), (fst s, Suc (snd s)))),
       PI_16 = [1,1,1,0, 1,1,1,0, 1,1,1,0, 1,1,1,0, 1,1,1,0, 1,1,1,0, 1,1,1,0, 1,1,1,0],
       PI_15 = [1,1,1,0, 1,1,1,0, 1,1,1,0, 1,1,1,0, 1,1,1,0, 1,1,1,0, 1,1,1,0, 1,1,0,0],
       PI_X = [1,1,0,0, 1,1,0,0, 1,1,0,0, 1,1,0,0, 1,1,0,0, 1,1,0,0] \<rparr>"

text \<open>The encoded bytes of the example: byte \<open>k\<close> is \<open>3 k + 1\<close>, cut to 8 bits.\<close>

definition example_encoded_bytes :: "u8 list" where
  "example_encoded_bytes = map (\<lambda>k. of_nat (3 * k + 1)) [0..<288]"

text \<open>A processor as the constructor leaves it, its static arrays holding zeros.\<close>

definition example_processor :: "(Decode_call list, u16 \<times> nat) FIC_Processor" where
  "example_processor =
     FIC_Processor_new example_collaborators (replicate 2304 0, replicate 768 0, replicate 96 0)"

section \<open>Properties of the controls\<close>

lemma bit7_of_or: "(w OR (0x80::u8)) AND 0x80 \<noteq> 0"
proof -
  have "bit ((w OR (0x80::u8)) AND 0x80) 7"
    by (simp add: bit_simps)
  then show ?thesis by force
qed

lemma bit5_of_and_not: "((w AND NOT (0x80::u8)) AND NOT 0x20) AND 0x20 = 0"
  by (rule bit_eqI) (auto simp add: bit_simps)

text \<open>
  Claim C2. Whatever the flags are, \<open>SetIsPlayAudio(true)\<close> leaves
  \<open>GetIsDecodeAudio()\<close> true and \<open>SetIsDecodeAudio(false)\<close> leaves
  \<open>GetIsPlayAudio()\<close> false; from \<open>flags = 0\<close> the two calls in this order
  give \<open>flags = 0\<close> again.
\<close>

theorem controls_coupling:
  "GetIsDecodeAudio (SetIsPlayAudio True flags)
   \<and> \<not> GetIsPlayAudio (SetIsDecodeAudio False flags)
   \<and> SetIsDecodeAudio False (SetIsPlayAudio True 0) = 0"
proof (intro conjI)
  show "GetIsDecodeAudio (SetIsPlayAudio True flags)"
    unfolding GetIsDecodeAudio_def SetIsPlayAudio_def SetFlag_def Let_def
      CONTROL_FLAG_DECODE_AUDIO_def CONTROL_FLAG_PLAY_AUDIO_def if_True
    by (rule bit7_of_or)
  show "\<not> GetIsPlayAudio (SetIsDecodeAudio False flags)"
    unfolding GetIsPlayAudio_def SetIsDecodeAudio_def SetFlag_def Let_def
      CONTROL_FLAG_DECODE_AUDIO_def CONTROL_FLAG_PLAY_AUDIO_def if_False
      not_False_eq_True if_True not_not
    by (rule bit5_of_and_not)
  show "SetIsDecodeAudio False (SetIsPlayAudio True 0) = 0"
    by (simp add: SetIsDecodeAudio_def SetIsPlayAudio_def SetFlag_def
        CONTROL_FLAG_DECODE_AUDIO_def CONTROL_FLAG_PLAY_AUDIO_def)
qed

section \<open>Properties of the FIG parser\<close>

lemma and_255: "(b::u8) AND 0xFF = b"
proof -
  have "(0xFF::u8) = - 1" by simp
  then show ?thesis by (simp only: and.right_neutral)
qed

lemma map_option_append_Nil: "map_option ((@) []) x = x"
  by (cases x) simp_all

lemma rd_take: "i < n \<Longrightarrow> rd (take n buf) i = rd buf i"
  by (simp add: rd_def)

subsection \<open>FIG 0/0\<close>

text \<open>
  Claim C5 says that the FIG 0/0 handler accepts a field of 4 bytes as well as one of
  5 bytes. It does not: a field of 5 bytes is rejected with the length error and
  nothing is parsed.
\<close>

theorem fig_0_0_five_bytes_counterexample:
  "ProcessFIG_Type_0_Ext_0 \<lparr>cn = 0, oe = 0, pd = 0\<rparr> [0xC0, 0x12, 0x05, 0x32, 0x00] 5 0
   = Some [LOG_ERROR (Fig_0_0_length_mismatch 0 4 5)]"
  by (simp add: ProcessFIG_Type_0_Ext_0_def)

text \<open>
  Claim C5, amended. The FIG 0/0 handler accepts a field of exactly 4 bytes and no
  other length: for \<open>N \<noteq> 4\<close> (so also for \<open>N = 5\<close>) it reports the length error
  only; for \<open>N = 4\<close> it reports the ensemble identifier, the change flags, the alarm
  flag and the two CIF counters read from the 4 bytes, and nothing beyond them is
  read: the occurrence-change byte is always taken as absent.
\<close>

theorem fig_0_0_accepts_only_four_bytes:
  "(unat N \<noteq> 4 \<longrightarrow>
      ProcessFIG_Type_0_Ext_0 header buf N cif_index
        = Some [LOG_ERROR (Fig_0_0_length_mismatch cif_index 4 N)])
   \<and> (unat N = 4 \<and> 4 \<le> length buf \<longrightarrow>
      ProcessFIG_Type_0_Ext_0 header buf N cif_index
        = Some [LOG_MESSAGE_fig_0_0 cif_index
            (Fig_0_0_log
               \<lparr> country_id = drop_bit 4 (buf ! 0 AND 0xF0),
                 ensemble_reference =
                   push_bit 8 (ucast (buf ! 0 AND 0x0F)) OR ucast (buf ! 1) \<rparr>
               (drop_bit 6 (buf ! 2 AND 0xC0)) (drop_bit 5 (buf ! 2 AND 0x20))
               (buf ! 2 AND 0x1F) (buf ! 3))]
      \<and> ProcessFIG_Type_0_Ext_0 header (take 4 buf) N cif_index
        = ProcessFIG_Type_0_Ext_0 header buf N cif_index)"
proof (intro conjI impI)
  assume "unat N \<noteq> 4"
  then show "ProcessFIG_Type_0_Ext_0 header buf N cif_index
        = Some [LOG_ERROR (Fig_0_0_length_mismatch cif_index 4 N)]"
    by (simp add: ProcessFIG_Type_0_Ext_0_def)
next
  assume a: "unat N = 4 \<and> 4 \<le> length buf"
  then show "ProcessFIG_Type_0_Ext_0 header buf N cif_index
        = Some [LOG_MESSAGE_fig_0_0 cif_index
            (Fig_0_0_log
               \<lparr> country_id = drop_bit 4 (buf ! 0 AND 0xF0),
                 ensemble_reference =
                   push_bit 8 (ucast (buf ! 0 AND 0x0F)) OR ucast (buf ! 1) \<rparr>
               (drop_bit 6 (buf ! 2 AND 0xC0)) (drop_bit 5 (buf ! 2 AND 0x20))
               (buf ! 2 AND 0x1F) (buf ! 3))]"
    by (auto simp add: ProcessFIG_Type_0_Ext_0_def EnsembleIdentifier_ProcessBuffer_def rd_def and_255)
next
  assume a: "unat N = 4 \<and> 4 \<le> length buf"
  show "ProcessFIG_Type_0_Ext_0 header (take 4 buf) N cif_index
        = ProcessFIG_Type_0_Ext_0 header buf N cif_index"
    by (simp add: ProcessFIG_Type_0_Ext_0_def EnsembleIdentifier_ProcessBuffer_def rd_take)
qed

theorem fig_0_0_accepts_only_four_bytes_witness:
  "ProcessFIG_Type_0_Ext_0 \<lparr>cn = 0, oe = 0, pd = 0\<rparr> [0xC0, 0x12, 0x05, 0x32, 0x07] 5 3
     = Some [LOG_ERROR (Fig_0_0_length_mismatch 3 4 5)]
   \<and> ProcessFIG_Type_0_Ext_0 \<lparr>cn = 0, oe = 0, pd = 0\<rparr> [0xC0, 0x12, 0x05, 0x32, 0x07] 4 3
     = Some [LOG_MESSAGE_fig_0_0 3
          (Fig_0_0_log \<lparr>country_id = 0xC, ensemble_reference = 0x012\<rparr> 0 0 5 50)]
   \<and> ProcessFIG_Type_0_Ext_0 \<lparr>cn = 0, oe = 0, pd = 0\<rparr> [0xC0, 0x12, 0x05, 0x32] 4 3
     = ProcessFIG_Type_0_Ext_0 \<lparr>cn = 0, oe = 0, pd = 0\<rparr> [0xC0, 0x12, 0x05, 0x32, 0x07] 4 3"
  using fig_0_0_accepts_only_four_bytes
          [of 5 "\<lparr>cn = 0, oe = 0, pd = 0\<rparr>" "[0xC0, 0x12, 0x05, 0x32, 0x07]" 3]
        fig_0_0_accepts_only_four_bytes
          [of 4 "\<lparr>cn = 0, oe = 0, pd = 0\<rparr>" "[0xC0, 0x12, 0x05, 0x32, 0x07]" 3]
  by simp

subsection \<open>FIG 0/10\<close>

text \<open>
  Claim C6 expects \<open>MJD = 59776\<close>, \<open>hours = 1\<close>, \<open>minutes = 52\<close> from the field
  \<open>[0x37, 0xC6, 0x08, 0x12, 0x34]\<close>. The handler reports no date for it: bit 3 of the
  third byte \<open>0x08\<close> is the UTC flag and it is set, the long form needs 6 bytes, and
  the 5-byte field is rejected.
\<close>

theorem fig_0_10_scenario_counterexample:
  "ProcessFIG_Type_0_Ext_10 \<lparr>cn = 0, oe = 0, pd = 0\<rparr> [0x37, 0xC6, 0x08, 0x12, 0x34] 5 0
   = Some [LOG_ERROR (Fig_0_10_insufficient_long_form 0 6 5)]"
  by (simp add: ProcessFIG_Type_0_Ext_10_def rd_def)

text \<open>
  Claim C6, amended. For the field \<open>[0x37, 0xC6, 0x08, 0x12, 0x34]\<close> of 5 bytes the
  UTC flag is 1 and the handler reports the error for the long form (6 bytes
  needed, 5 given), whatever the header and the CIF index; for the same bytes with
  the UTC flag cleared, \<open>[0x37, 0xC6, 0x00, 0x12, 0x34]\<close>, it reports \<open>MJD = 57112\<close>,
  \<open>hours = 0\<close>, \<open>minutes = 18\<close>, with seconds and milliseconds 0.
\<close>

theorem fig_0_10_scenario:
  "ProcessFIG_Type_0_Ext_10 header [0x37, 0xC6, 0x08, 0x12, 0x34] 5 cif_index
     = Some [LOG_ERROR (Fig_0_10_insufficient_long_form cif_index 6 5)]
   \<and> ProcessFIG_Type_0_Ext_10 header [0x37, 0xC6, 0x00, 0x12, 0x34] 5 cif_index
     = Some [LOG_MESSAGE_fig_0_10 cif_index (Fig_0_10_log 0 57112 0 0 0 0 18 0 0)]"
  by (simp add: ProcessFIG_Type_0_Ext_10_def rd_def)

subsection \<open>The scan: reserved types and unknown extensions\<close>

lemma fig_step_reserved:
  assumes "rd buf curr_byte = Some header"
    and "drop_bit 5 (header AND 0xE0) \<in> {3, 4, 5}"
  shows "fig_step buf curr_byte cif_index =
     Some ([LOG_ERROR
        (if 30 - curr_byte < unat ((header AND 0x1F) + 1)
         then Fig_length_overflows_buffer cif_index ((header AND 0x1F) + 1) (30 - curr_byte)
         else Invalid_fig_type (drop_bit 5 (header AND 0xE0)))], None)"
proof -
  have "header \<noteq> 0xFF"
    using assms(2) by auto
  then show ?thesis
    using assms by (auto simp add: fig_step_def Let_def)
qed

lemma ProcessFIG_Type_0_unhandled:
  assumes "rd buf 0 = Some descriptor"
    and "unat (descriptor AND 0x1F) \<notin> {0, 10} \<union> other_handled_extensions"
  shows "ProcessFIG_Type_0 buf N cif_index = Some []"
  using assms by (simp add: ProcessFIG_Type_0_def Let_def)

lemma fig_step_unhandled:
  assumes "rd buf curr_byte = Some header"
    and "drop_bit 5 (header AND 0xE0) = 0"
    and "unat ((header AND 0x1F) + 1) \<le> 30 - curr_byte"
    and "rd buf (curr_byte + 1) = Some descriptor"
    and "unat (descriptor AND 0x1F) \<notin> {0, 10} \<union> other_handled_extensions"
  shows "fig_step buf curr_byte cif_index =
     Some ([], Some (curr_byte + unat ((header AND 0x1F) + 1)))"
proof -
  have "header \<noteq> 0xFF"
    using assms(2) by auto
  moreover have "rd (drop (curr_byte + 1) buf) 0 = Some descriptor"
    using assms(4) by (auto simp add: rd_def split: if_splits)
  then have "ProcessFIG_Type_0 (drop (curr_byte + 1) buf) (header AND 0x1F) cif_index = Some []"
    using assms(5) by (rule ProcessFIG_Type_0_unhandled)
  ultimately show ?thesis
    using assms(1,2,3) by (simp add: fig_step_def Let_def)
qed

text \<open>
  Claim C10. When the loop of \<open>ProcessFIG\<close> stands at a FIG header of type 3, 4 or 5,
  it reports one error and returns: nothing that follows in the FIB is processed
  (the error is the invalid type, or the length overflow when the announced length
  does not fit). When it stands at a FIG of type 0 that fits and whose extension has
  no handler, it reports nothing for this FIG and goes on with the FIG that follows.
\<close>

theorem reserved_type_stops_unknown_extension_skips:
  assumes "curr_byte < 30" and "32 \<le> length buf"
  shows "(drop_bit 5 (buf ! curr_byte AND 0xE0) \<in> {3, 4, 5} \<longrightarrow>
            ProcessFIG_from buf curr_byte cif_index =
              Some [LOG_ERROR
                (if 30 - curr_byte < unat ((buf ! curr_byte AND 0x1F) + 1)
                 then Fig_length_overflows_buffer cif_index ((buf ! curr_byte AND 0x1F) + 1) (30 - curr_byte)
                 else Invalid_fig_type (drop_bit 5 (buf ! curr_byte AND 0xE0)))])
       \<and> (drop_bit 5 (buf ! curr_byte AND 0xE0) = 0
          \<and> unat ((buf ! curr_byte AND 0x1F) + 1) \<le> 30 - curr_byte
          \<and> unat (buf ! (curr_byte + 1) AND 0x1F) \<notin> {0, 10} \<union> other_handled_extensions \<longrightarrow>
            ProcessFIG_from buf curr_byte cif_index =
              ProcessFIG_from buf (curr_byte + unat ((buf ! curr_byte AND 0x1F) + 1)) cif_index)"
proof (intro conjI impI)
  have r: "rd buf curr_byte = Some (buf ! curr_byte)"
    using assms by (simp add: rd_def)
  assume "drop_bit 5 (buf ! curr_byte AND 0xE0) \<in> {3, 4, 5}"
  with r have "fig_step buf curr_byte cif_index =
     Some ([LOG_ERROR
        (if 30 - curr_byte < unat ((buf ! curr_byte AND 0x1F) + 1)
         then Fig_length_overflows_buffer cif_index ((buf ! curr_byte AND 0x1F) + 1) (30 - curr_byte)
         else Invalid_fig_type (drop_bit 5 (buf ! curr_byte AND 0xE0)))], None)"
    by (rule fig_step_reserved)
  then show "ProcessFIG_from buf curr_byte cif_index =
              Some [LOG_ERROR
                (if 30 - curr_byte < unat ((buf ! curr_byte AND 0x1F) + 1)
                 then Fig_length_overflows_buffer cif_index ((buf ! curr_byte AND 0x1F) + 1) (30 - curr_byte)
                 else Invalid_fig_type (drop_bit 5 (buf ! curr_byte AND 0xE0)))]"
    using assms(1) by (subst ProcessFIG_from.simps) simp
next
  have r: "rd buf curr_byte = Some (buf ! curr_byte)"
    using assms by (simp add: rd_def)
  have r1: "rd buf (curr_byte + 1) = Some (buf ! (curr_byte + 1))"
    using assms by (simp add: rd_def)
  assume a: "drop_bit 5 (buf ! curr_byte AND 0xE0) = 0
          \<and> unat ((buf ! curr_byte AND 0x1F) + 1) \<le> 30 - curr_byte
          \<and> unat (buf ! (curr_byte + 1) AND 0x1F) \<notin> {0, 10} \<union> other_handled_extensions"
  have "fig_step buf curr_byte cif_index =
     Some ([], Some (curr_byte + unat ((buf ! curr_byte AND 0x1F) + 1)))"
    using r a r1 by (intro fig_step_unhandled) auto
  then show "ProcessFIG_from buf curr_byte cif_index =
              ProcessFIG_from buf (curr_byte + unat ((buf ! curr_byte AND 0x1F) + 1)) cif_index"
    using assms(1)
    by (subst ProcessFIG_from.simps) (simp add: map_option_append_Nil)
qed

lemma scan_after_unknown_extension:
  "ProcessFIG_from
     ([0x01, 0x1F, 0x05, 0x00, 0xC0, 0x12, 0x05, 0x32, 0xFF] @ replicate 23 0) (Suc (Suc 0)) 7
   = Some [LOG_MESSAGE_fig_0_0 7
        (Fig_0_0_log \<lparr>country_id = 0xC, ensemble_reference = 0x012\<rparr> 0 0 5 50)]"
  by code_simp

theorem reserved_type_stops_unknown_extension_skips_witness:
  "ProcessFIG_from
     ([0x61, 0x00, 0x05, 0x00, 0xC0, 0x12, 0x05, 0x32, 0xFF] @ replicate 23 0) 0 7
     = Some [LOG_ERROR (Invalid_fig_type 3)]
   \<and> ProcessFIG_from
     ([0x01, 0x1F, 0x05, 0x00, 0xC0, 0x12, 0x05, 0x32, 0xFF] @ replicate 23 0) 0 7
     = Some [LOG_MESSAGE_fig_0_0 7
          (Fig_0_0_log \<lparr>country_id = 0xC, ensemble_reference = 0x012\<rparr> 0 0 5 50)]"
proof
  show "ProcessFIG_from
     ([0x61, 0x00, 0x05, 0x00, 0xC0, 0x12, 0x05, 0x32, 0xFF] @ replicate 23 0) 0 7
     = Some [LOG_ERROR (Invalid_fig_type 3)]"
    using reserved_type_stops_unknown_extension_skips
          [of 0 "[0x61, 0x00, 0x05, 0x00, 0xC0, 0x12, 0x05, 0x32, 0xFF] @ replicate 23 0" 7]
    by simp
  have "ProcessFIG_from
     ([0x01, 0x1F, 0x05, 0x00, 0xC0, 0x12, 0x05, 0x32, 0xFF] @ replicate 23 0) 0 7
     = ProcessFIG_from
     ([0x01, 0x1F, 0x05, 0x00, 0xC0, 0x12, 0x05, 0x32, 0xFF] @ replicate 23 0) (Suc (Suc 0)) 7"
    using reserved_type_stops_unknown_extension_skips
          [of 0 "[0x01, 0x1F, 0x05, 0x00, 0xC0, 0x12, 0x05, 0x32, 0xFF] @ replicate 23 0" 7]
    by (simp add: other_handled_extensions_def)
  then show "ProcessFIG_from
     ([0x01, 0x1F, 0x05, 0x00, 0xC0, 0x12, 0x05, 0x32, 0xFF] @ replicate 23 0) 0 7
     = Some [LOG_MESSAGE_fig_0_0 7
          (Fig_0_0_log \<lparr>country_id = 0xC, ensemble_reference = 0x012\<rparr> 0 0 5 50)]"
    by (simp only: scan_after_unknown_extension)
qed

subsection \<open>The CRC gate\<close>

lemma cat_lo: "(ucast (push_bit 8 (ucast (h::u8) :: u16) OR ucast (l::u8)) :: u8) = l"
  by (rule bit_eqI) (auto simp: bit_simps)

lemma cat_hi: "(ucast (drop_bit 8 (push_bit 8 (ucast (h::u8) :: u16) OR ucast (l::u8))) :: u8) = h"
  by (rule bit_eqI) (auto simp: bit_simps dest: bit_imp_le_length)

lemma xor_right_cancel: "(a::u16) XOR c = b XOR c \<Longrightarrow> a = b"
proof -
  assume "a XOR c = b XOR c"
  then have "(a XOR c) XOR c = (b XOR c) XOR c" by simp
  then show "a = b" by (simp only: xor.assoc xor_self_eq xor.right_neutral)
qed


lemma word_cat_inj:
  assumes "(push_bit 8 (ucast (h::u8) :: u16) OR ucast (l::u8)) = (push_bit 8 (ucast h') OR ucast l')"
  shows "h = h' \<and> l = l'"
proof
  show "h = h'" using cat_hi [of h l] cat_hi [of h' l'] assms by simp
  show "l = l'" using cat_lo [of h l] cat_lo [of h' l'] assms by simp
qed

lemma crc16_rx_Some:
  "32 \<le> length fib \<Longrightarrow>
   crc16_rx fib = Some ((push_bit 8 (ucast (fib ! 30) :: u16) OR ucast (fib ! 31)) XOR 0xFFFF)"
  by (simp add: crc16_rx_def rd_def)

lemma empty_fib_crc: "CRC_Calculate (0xFF # replicate 29 0) = 0x5757"
  by code_simp

lemma ProcessFIG_delimiter: "rd buf 0 = Some 0xFF \<Longrightarrow> ProcessFIG buf cif_index = Some []"
  by (simp add: ProcessFIG_def ProcessFIG_from.simps fig_step_def)

text \<open>
  Claim C1 says that every FIB with a valid CRC makes the parser produce at least
  one record. The FIB whose payload is the delimiter \<open>0xFF\<close> followed by padding has
  a valid CRC (\<open>0xA8A8\<close> as transmitted) and produces nothing: the scan returns at
  the delimiter.
\<close>

theorem valid_fib_without_record_counterexample:
  "crc16_rx (0xFF # replicate 29 0 @ [0xA8, 0xA8]) = Some (CRC_Calculate (take 30 (0xFF # replicate 29 0 @ [0xA8, 0xA8])))
   \<and> ProcessFIBGroup_fib (0xFF # replicate 29 0 @ [0xA8, 0xA8]) 0 = Some []"
proof -
  have rx: "crc16_rx (0xFF # replicate 29 0 @ [0xA8, 0xA8]) = Some 0x5757"
    by (simp add: crc16_rx_def rd_def nth_append nth_Cons')
  have tk: "take 30 (0xFF # replicate 29 0 @ [0xA8, 0xA8 :: u8]) = 0xFF # replicate 29 0"
    by (simp add: take_Cons')
  have "ProcessFIG (0xFF # replicate 29 0 @ [0xA8, 0xA8]) 0 = Some []"
    by (rule ProcessFIG_delimiter) (simp add: rd_def)
  then show ?thesis
    by (simp only: rx tk empty_fib_crc ProcessFIBGroup_fib_def Let_def bind.bind_lunit if_True simp_thms)
qed

text \<open>
  Claim C1, amended. A FIB whose CRC-16 matches is handed to the FIG parser, and
  what is reported for it is what \<open>ProcessFIG\<close> reports, which may be nothing; a FIB
  obtained from it by altering its last two bytes is dropped before the FIG parser
  runs and nothing is reported for it.
\<close>

theorem fib_crc_gate:
  assumes len: "32 \<le> length fib" "32 \<le> length fib'"
    and valid: "crc16_rx fib = Some (CRC_Calculate (take 30 fib))"
    and same: "take 30 fib' = take 30 fib"
    and altered: "(fib' ! 30, fib' ! 31) \<noteq> (fib ! 30, fib ! 31)"
  shows "ProcessFIBGroup_fib fib cif_index = ProcessFIG fib cif_index
       \<and> ProcessFIBGroup_fib fib' cif_index = Some []"
proof
  show "ProcessFIBGroup_fib fib cif_index = ProcessFIG fib cif_index"
    using valid by (simp add: ProcessFIBGroup_fib_def)
  have "crc16_rx fib' \<noteq> crc16_rx fib"
  proof
    assume "crc16_rx fib' = crc16_rx fib"
    then have "(push_bit 8 (ucast (fib' ! 30) :: u16) OR ucast (fib' ! 31))
             = (push_bit 8 (ucast (fib ! 30) :: u16) OR ucast (fib ! 31))"
      using len by (auto simp add: crc16_rx_Some dest: xor_right_cancel)
    then have "fib' ! 30 = fib ! 30 \<and> fib' ! 31 = fib ! 31"
      by (rule word_cat_inj)
    with altered show False by simp
  qed
  then have "crc16_rx fib' \<noteq> Some (CRC_Calculate (take 30 fib'))"
    using valid same by simp
  then show "ProcessFIBGroup_fib fib' cif_index = Some []"
    using len(2) by (auto simp add: ProcessFIBGroup_fib_def crc16_rx_Some)
qed

lemma fig_0_0_fib_crc:
  "CRC_Calculate ([0x05, 0x00, 0xC0, 0x12, 0x05, 0x32, 0xFF] @ replicate 23 0) = 0xE300"
  by code_simp

theorem fib_crc_gate_witness:
  "ProcessFIBGroup_fib
     ([0x05, 0x00, 0xC0, 0x12, 0x05, 0x32, 0xFF] @ replicate 23 0 @ [0x1C, 0xFF]) 0
     = ProcessFIG ([0x05, 0x00, 0xC0, 0x12, 0x05, 0x32, 0xFF] @ replicate 23 0 @ [0x1C, 0xFF]) 0
   \<and> ProcessFIBGroup_fib
     ([0x05, 0x00, 0xC0, 0x12, 0x05, 0x32, 0xFF] @ replicate 23 0 @ [0x1C, 0xFE]) 0
     = Some []"
proof -
  have rx: "crc16_rx ([0x05, 0x00, 0xC0, 0x12, 0x05, 0x32, 0xFF] @ replicate 23 0 @ [0x1C, 0xFF])
            = Some 0xE300"
    by (simp add: crc16_rx_def rd_def nth_append nth_Cons')
  have tk: "take 30 ([0x05, 0x00, 0xC0, 0x12, 0x05, 0x32, 0xFF] @ replicate 23 0 @ [0x1C, 0xFF :: u8])
            = [0x05, 0x00, 0xC0, 0x12, 0x05, 0x32, 0xFF] @ replicate 23 0"
    by simp
  have tk': "take 30 ([0x05, 0x00, 0xC0, 0x12, 0x05, 0x32, 0xFF] @ replicate 23 0 @ [0x1C, 0xFE :: u8])
            = [0x05, 0x00, 0xC0, 0x12, 0x05, 0x32, 0xFF] @ replicate 23 0"
    by simp
  have valid: "crc16_rx ([0x05, 0x00, 0xC0, 0x12, 0x05, 0x32, 0xFF] @ replicate 23 0 @ [0x1C, 0xFF])
     = Some (CRC_Calculate
         (take 30 ([0x05, 0x00, 0xC0, 0x12, 0x05, 0x32, 0xFF] @ replicate 23 0 @ [0x1C, 0xFF])))"
    by (simp only: rx tk fig_0_0_fib_crc)
  have altered:
    "(([0x05, 0x00, 0xC0, 0x12, 0x05, 0x32, 0xFF] @ replicate 23 0 @ [0x1C, 0xFE :: u8]) ! 30,
      ([0x05, 0x00, 0xC0, 0x12, 0x05, 0x32, 0xFF] @ replicate 23 0 @ [0x1C, 0xFE :: u8]) ! 31)
     \<noteq> (([0x05, 0x00, 0xC0, 0x12, 0x05, 0x32, 0xFF] @ replicate 23 0 @ [0x1C, 0xFF :: u8]) ! 30,
      ([0x05, 0x00, 0xC0, 0x12, 0x05, 0x32, 0xFF] @ replicate 23 0 @ [0x1C, 0xFF :: u8]) ! 31)"
    by (simp add: nth_append nth_Cons')
  show ?thesis
    by (rule fib_crc_gate [OF _ _ valid _ altered]) (simp_all only: tk tk', simp_all)
qed

section \<open>Properties of the channel's error flags\<close>

lemma Notify_all_append: "Notify_all (es1 @ es2) c = Notify_all es2 (Notify_all es1 c)"
  by (induction es1 arbitrary: c) simp_all

lemma Notify_firecode:
  "m_is_firecode_error (Notify e c) =
     (if is_header e then False else (is_firecode_error e \<or> m_is_firecode_error c))"
  by (cases e) (simp_all add: on_header_clear_errors_def on_header_replace_decoder_def
      on_access_unit_clear_au_error_def on_access_unit_decode_audio_def Let_def)

lemma Notify_rs:
  "m_is_rs_error (Notify e c) =
     (if is_header e then False else (is_rs_error e \<or> m_is_rs_error c))"
  by (cases e) (simp_all add: on_header_clear_errors_def on_header_replace_decoder_def
      on_access_unit_clear_au_error_def on_access_unit_decode_audio_def Let_def)

lemma Notify_au:
  "m_is_au_error (Notify e c) =
     (if is_first_access_unit e then False else (is_au_crc_error e \<or> m_is_au_error c))"
  by (cases e) (simp_all add: on_header_clear_errors_def on_header_replace_decoder_def
      on_access_unit_clear_au_error_def on_access_unit_decode_audio_def Let_def)

lemma firecode_since:
  "\<not> list_ex is_header es \<Longrightarrow>
   m_is_firecode_error (Notify_all es c) = (list_ex is_firecode_error es \<or> m_is_firecode_error c)"
  by (induction es arbitrary: c) (auto simp add: Notify_firecode)

lemma rs_since:
  "\<not> list_ex is_header es \<Longrightarrow>
   m_is_rs_error (Notify_all es c) = (list_ex is_rs_error es \<or> m_is_rs_error c)"
  by (induction es arbitrary: c) (auto simp add: Notify_rs)

lemma au_since:
  "\<not> list_ex is_first_access_unit es \<Longrightarrow>
   m_is_au_error (Notify_all es c) = (list_ex is_au_crc_error es \<or> m_is_au_error c)"
  by (induction es arbitrary: c) (auto simp add: Notify_au)

text \<open>
  Claim C8 says that the three error flags are cleared when the access unit with
  \<open>au_index = 0\<close> is handled. Only \<open>m_is_au_error\<close> is. In the sequence below a
  superframe with a firecode error and a Reed-Solomon error is followed by a
  superframe without any error; after the first access unit of the second
  superframe has been handled, \<open>m_is_firecode_error\<close> and \<open>m_is_rs_error\<close> are still
  set.
\<close>

theorem flags_at_first_access_unit_counterexample:
  "m_is_firecode_error
     (Notify_all
        [OnSuperFrameHeader example_header, OnFirecodeError 0 1 2, OnRSError 0 3,
         OnAccessUnit 0 3 [] False, OnAccessUnit 1 3 [] False, OnAccessUnit 2 3 [] False,
         OnAccessUnit 0 3 [] False]
        example_channel)
   \<and> m_is_rs_error
     (Notify_all
        [OnSuperFrameHeader example_header, OnFirecodeError 0 1 2, OnRSError 0 3,
         OnAccessUnit 0 3 [] False, OnAccessUnit 1 3 [] False, OnAccessUnit 2 3 [] False,
         OnAccessUnit 0 3 [] False]
        example_channel)"
  by (simp add: Notify_firecode Notify_rs del: Notify.simps)

text \<open>
  Claim C8, amended. In every sequence of notifications: \<open>m_is_au_error\<close> is cleared
  when an access unit with \<open>au_index = 0\<close> is handled, and until the next such access
  unit it is set exactly when an access-unit CRC error has been notified since;
  \<open>m_is_firecode_error\<close> and \<open>m_is_rs_error\<close> are cleared when a superframe header is
  notified, and until the next header each is set exactly when the corresponding
  error has been notified since; a notification that is not a superframe header
  clears neither of the two.
\<close>

theorem error_flags_reset_discipline:
  "(is_first_access_unit e \<and> \<not> list_ex is_first_access_unit es \<longrightarrow>
      m_is_au_error (Notify_all (before @ e # es) c) = list_ex is_au_crc_error es)
   \<and> (is_header e \<and> \<not> list_ex is_header es \<longrightarrow>
      m_is_firecode_error (Notify_all (before @ e # es) c) = list_ex is_firecode_error es
      \<and> m_is_rs_error (Notify_all (before @ e # es) c) = list_ex is_rs_error es)
   \<and> (\<not> is_header e \<longrightarrow>
      m_is_firecode_error (Notify e c) = (is_firecode_error e \<or> m_is_firecode_error c)
      \<and> m_is_rs_error (Notify e c) = (is_rs_error e \<or> m_is_rs_error c))"
  by (simp add: Notify_all_append firecode_since rs_since au_since
      Notify_firecode Notify_rs Notify_au)

theorem error_flags_reset_discipline_witness:
  "m_is_au_error
     (Notify_all
        ([OnAccessUnitCRCError 2 3 1 2] @ OnAccessUnit 0 3 [] False
           # [OnAccessUnit 1 3 [] False, OnAccessUnitCRCError 2 3 5 6])
        example_channel)
   \<and> \<not> m_is_firecode_error
     (Notify_all
        ([OnFirecodeError 0 1 2, OnRSError 0 3] @ OnSuperFrameHeader example_header
           # [OnAccessUnit 0 3 [] False, OnRSError 1 3])
        example_channel)
   \<and> m_is_rs_error
     (Notify_all
        ([OnFirecodeError 0 1 2, OnRSError 0 3] @ OnSuperFrameHeader example_header
           # [OnAccessUnit 0 3 [] False, OnRSError 1 3])
        example_channel)
   \<and> m_is_firecode_error
     (Notify (OnAccessUnit 0 3 [] False) (example_channel\<lparr>m_is_firecode_error := True\<rparr>))
   \<and> m_is_rs_error
     (Notify (OnAccessUnit 0 3 [] False) (example_channel\<lparr>m_is_rs_error := True\<rparr>))"
  using error_flags_reset_discipline
          [of "OnAccessUnit 0 3 [] False"
              "[OnAccessUnit 1 3 [] False, OnAccessUnitCRCError 2 3 5 6]"
              "[OnAccessUnitCRCError 2 3 1 2]" example_channel]
        error_flags_reset_discipline
          [of "OnSuperFrameHeader example_header"
              "[OnAccessUnit 0 3 [] False, OnRSError 1 3]"
              "[OnFirecodeError 0 1 2, OnRSError 0 3]" example_channel]
        error_flags_reset_discipline
          [of "OnAccessUnit 0 3 [] False" "[]" "[]"
              "example_channel\<lparr>m_is_firecode_error := True\<rparr>"]
        error_flags_reset_discipline
          [of "OnAccessUnit 0 3 [] False" "[]" "[]"
              "example_channel\<lparr>m_is_rs_error := True\<rparr>"]
  by simp

section \<open>Properties of the depuncturing\<close>

lemma transmitted_before_Suc:
  "transmitted_before pc (Suc i) =
     transmitted_before pc i + (if cyclic_puncture_flag pc i then 1 else 0)"
  by (simp add: transmitted_before_def)

lemma transmitted_before_mono: "i \<le> j \<Longrightarrow> transmitted_before pc i \<le> transmitted_before pc j"
proof (induction j)
  case 0
  then show ?case by simp
next
  case (Suc j)
  then show ?case
    by (cases "i = Suc j") (auto simp add: transmitted_before_Suc)
qed

lemma take_Suc_update: "i < length xs \<Longrightarrow> take (Suc i) (xs[i := x]) = take i xs @ [x]"
  by (simp add: take_Suc_conv_app_nth)

lemma depuncture_loop_runs:
  assumes "pc \<noteq> []"
    and "transmitted_before pc req \<le> length ps"
    and "i \<le> req" and "req \<le> length dep"
  shows "depuncture_loop ndebug unp ps pc req i (transmitted_before pc i) (i mod length pc) dep
       = Loop_done (transmitted_before pc req)
           (take i dep @ map (depunctured_symbol unp ps pc) [i..<req] @ drop req dep)"
  using assms(3,4)
proof (induction "req - i" arbitrary: i dep)
  case 0
  then have "i = req" by simp
  then show ?case
    by (subst depuncture_loop.simps) simp
next
  case (Suc k)
  then have lt: "i < req" and k: "k = req - Suc i" and le: "Suc i \<le> req"
    by simp_all
  have pos: "i mod length pc < length pc"
    using assms(1) by simp
  have nxt: "Suc (i mod length pc) mod length pc = Suc i mod length pc"
    by (simp add: mod_Suc_eq)
  have upt: "[i..<req] = i # [Suc i..<req]"
    using lt by (simp add: upt_conv_Cons)
  have ilen: "i < length dep"
    using lt Suc.prems by simp
  have ih: "depuncture_loop ndebug unp ps pc req (Suc i) (transmitted_before pc (Suc i))
              (Suc i mod length pc) (dep[i := v])
            = Loop_done (transmitted_before pc req)
                (take (Suc i) (dep[i := v])
                 @ map (depunctured_symbol unp ps pc) [Suc i..<req]
                 @ drop req (dep[i := v]))" for v
    using Suc.hyps(1) [OF k le] Suc.prems by simp
  have fin: "take (Suc i) (dep[i := v]) @ map (depunctured_symbol unp ps pc) [Suc i..<req]
               @ drop req (dep[i := v])
             = take i dep @ map (depunctured_symbol unp ps pc) [i..<req] @ drop req dep"
    if "v = depunctured_symbol unp ps pc i" for v
    using that lt ilen by (simp add: upt take_Suc_update)
  show ?case
  proof (cases "cyclic_puncture_flag pc i")
    case True
    then have "transmitted_before pc i < transmitted_before pc (Suc i)"
      by (simp add: transmitted_before_Suc)
    also have "\<dots> \<le> transmitted_before pc req"
      using le by (rule transmitted_before_mono)
    finally have room: "transmitted_before pc i < length ps"
      using assms(2) by simp
    have tb: "Suc (transmitted_before pc i) = transmitted_before pc (Suc i)"
      using True by (simp add: transmitted_before_Suc)
    have flag: "pc ! (i mod length pc) \<noteq> 0"
      using True by (simp add: cyclic_puncture_flag_def)
    have v: "scast (ps ! transmitted_before pc i) = depunctured_symbol unp ps pc i"
      using True by (simp add: depunctured_symbol_def)
    have "depuncture_loop ndebug unp ps pc req i (transmitted_before pc i) (i mod length pc) dep
        = depuncture_loop ndebug unp ps pc req (Suc i) (transmitted_before pc (Suc i))
            (Suc i mod length pc) (dep[i := scast (ps ! transmitted_before pc i)])"
      apply (subst depuncture_loop.simps)
      using lt pos room flag
      apply (simp add: Let_def nxt tb)
      done
    also have "\<dots> = Loop_done (transmitted_before pc req)
        (take i dep @ map (depunctured_symbol unp ps pc) [i..<req] @ drop req dep)"
      by (simp only: ih fin [OF v])
    finally show ?thesis .
  next
    case False
    have tb: "transmitted_before pc i = transmitted_before pc (Suc i)"
      using False by (simp add: transmitted_before_Suc)
    have flag: "pc ! (i mod length pc) = 0"
      using False by (simp add: cyclic_puncture_flag_def)
    have v: "unp = depunctured_symbol unp ps pc i"
      using False by (simp add: depunctured_symbol_def)
    have "depuncture_loop ndebug unp ps pc req i (transmitted_before pc i) (i mod length pc) dep
        = depuncture_loop ndebug unp ps pc req (Suc i) (transmitted_before pc i)
            (Suc i mod length pc) (dep[i := unp])"
      apply (subst depuncture_loop.simps)
      using lt pos flag
      apply (simp add: Let_def nxt)
      done
    also have "\<dots> = Loop_done (transmitted_before pc req)
        (take i dep @ map (depunctured_symbol unp ps pc) [i..<req] @ drop req dep)"
      by (simp only: tb ih fin [OF v])
    finally show ?thesis .
  qed
qed

lemma punctured_midway:
  "sint (SOFT_DECISION_VITERBI_PUNCTURED soft_low soft_high)
   = (sint soft_low + sint soft_high) div 2"
proof -
  have "- (2 ^ 15) \<le> sint soft_low" "sint soft_low < 2 ^ 15"
       "- (2 ^ 15) \<le> sint soft_high" "sint soft_high < 2 ^ 15"
    using sint_ge [of soft_low] sint_lt [of soft_low] sint_ge [of soft_high] sint_lt [of soft_high]
    by simp_all
  then have "- (2 ^ (LENGTH(16) - 1)) \<le> (sint soft_low + sint soft_high) div 2"
    and "(sint soft_low + sint soft_high) div 2 < 2 ^ (LENGTH(16) - 1)"
    by simp_all
  then show ?thesis
    unfolding SOFT_DECISION_VITERBI_PUNCTURED_def sint_sbintrunc'
    by (rule signed_take_bit_int_eq_self)
qed

text \<open>
  Claim C4. When \<open>requested_output_symbols\<close> is a multiple of the code rate, the
  puncture code is not empty and the buffer of punctured symbols holds at least as
  many symbols as the cyclic puncture code marks transmitted over the first
  \<open>requested_output_symbols\<close> positions, \<open>update\<close> hands exactly
  \<open>requested_output_symbols\<close> symbols to the decoder core: at each position the next
  unread input symbol where the cyclic flag is set, the punctured value, midway
  between \<open>SOFT_LOW\<close> and \<open>SOFT_HIGH\<close>, where it is not; it leaves them at the front
  of \<open>depunctured_symbols\<close>, and it returns the number of input symbols consumed,
  which is the number of flags set in that window of the cyclic code. This holds
  with and without \<open>NDEBUG\<close>.
\<close>

theorem update_depunctures:
  fixes soft_low soft_high :: i16
  defines "unpunctured \<equiv> SOFT_DECISION_VITERBI_PUNCTURED soft_low soft_high"
  assumes "requested mod code_rate = 0"
    and "puncture_code \<noteq> []"
    and "transmitted_before puncture_code requested \<le> length punctured_symbols"
  shows "update ndebug unpunctured ExternalDecoder_update self punctured_symbols puncture_code
           requested
       = Update_returned (transmitted_before puncture_code requested)
           \<lparr> depunctured_symbols =
               map (depunctured_symbol unpunctured punctured_symbols puncture_code) [0..<requested]
               @ drop requested (depunctured_symbols self),
             decoder = ExternalDecoder_update (decoder self)
               (map (depunctured_symbol unpunctured punctured_symbols puncture_code) [0..<requested]) \<rparr>
     \<and> length (map (depunctured_symbol unpunctured punctured_symbols puncture_code) [0..<requested])
       = requested
     \<and> sint unpunctured = (sint soft_low + sint soft_high) div 2"
proof -
  define resized where "resized =
     (if requested > length (depunctured_symbols self)
      then depunctured_symbols self @ replicate (requested - length (depunctured_symbols self)) 0
      else depunctured_symbols self)"
  have len: "requested \<le> length resized"
    by (simp add: resized_def)
  have dr: "drop requested resized = drop requested (depunctured_symbols self)"
    by (simp add: resized_def)
  have "depuncture_loop ndebug unpunctured punctured_symbols puncture_code requested
          0 (transmitted_before puncture_code 0) (0 mod length puncture_code) resized
        = Loop_done (transmitted_before puncture_code requested)
            (take 0 resized
             @ map (depunctured_symbol unpunctured punctured_symbols puncture_code) [0..<requested]
             @ drop requested resized)"
    using assms(3,4) _ len by (rule depuncture_loop_runs) simp
  then have loop: "depuncture_loop ndebug unpunctured punctured_symbols puncture_code requested
          0 0 0 resized
        = Loop_done (transmitted_before puncture_code requested)
            (map (depunctured_symbol unpunctured punctured_symbols puncture_code) [0..<requested]
             @ drop requested (depunctured_symbols self))"
    by (simp add: transmitted_before_def dr)
  have mid: "sint unpunctured = (sint soft_low + sint soft_high) div 2"
    unfolding unpunctured_def by (rule punctured_midway)
  show ?thesis
    using assms(2) loop mid
    by (simp add: update_def Let_def resized_def [symmetric])
qed

text \<open>An example with \<open>SOFT_LOW = -127\<close> and \<open>SOFT_HIGH = 127\<close>, for which the punctured
  value is 0: the code \<open>1 0 1 1\<close> over four positions consumes three symbols.\<close>

theorem update_depunctures_witness:
  "update False (SOFT_DECISION_VITERBI_PUNCTURED (- 127) 127) (\<lambda>d symbols. d @ symbols)
     \<lparr>depunctured_symbols = [7, 7, 7, 7, 7], decoder = []\<rparr>
     [5, 0xFF, 9] [1, 0, 1, 1] 4
   = Update_returned 3 \<lparr>depunctured_symbols = [5, 0, 0xFFFF, 9, 7], decoder = [5, 0, 0xFFFF, 9]\<rparr>"
proof -
  have "(4::nat) mod code_rate = 0"
    by (simp add: code_rate_def)
  moreover have "[1, 0, 1, 1] \<noteq> ([] :: u8 list)"
    by simp
  moreover have tb: "transmitted_before [1, 0, 1, 1] 4 = 3"
    by (simp add: transmitted_before_def cyclic_puncture_flag_def upt_rec)
  then have "transmitted_before [1, 0, 1, 1] 4 \<le> length [5, 0xFF, 9 :: viterbi_bit_t]"
    by simp
  ultimately have "update False (SOFT_DECISION_VITERBI_PUNCTURED (- 127) 127)
       (\<lambda>d symbols. d @ symbols)
       \<lparr>depunctured_symbols = [7, 7, 7, 7, 7], decoder = []\<rparr> [5, 0xFF, 9] [1, 0, 1, 1] 4
     = Update_returned (transmitted_before [1, 0, 1, 1] 4)
         \<lparr> depunctured_symbols =
             map (depunctured_symbol (SOFT_DECISION_VITERBI_PUNCTURED (- 127) 127)
                    [5, 0xFF, 9] [1, 0, 1, 1]) [0..<4]
             @ drop 4 (depunctured_symbols \<lparr>depunctured_symbols = [7, 7, 7, 7, 7], decoder = []\<rparr>),
           decoder = (\<lambda>d symbols. d @ symbols)
             (decoder \<lparr>depunctured_symbols = [7, 7, 7, 7, 7 :: i16], decoder = ([] :: i16 list)\<rparr>)
             (map (depunctured_symbol (SOFT_DECISION_VITERBI_PUNCTURED (- 127) 127)
                    [5, 0xFF, 9] [1, 0, 1, 1]) [0..<4]) \<rparr>"
    using update_depunctures
      [of 4 "[1, 0, 1, 1]" "[5, 0xFF, 9]" False "- 127" 127 "\<lambda>d symbols. d @ symbols"
          "\<lparr>depunctured_symbols = [7, 7, 7, 7, 7], decoder = []\<rparr>"]
    by simp
  moreover have "map (depunctured_symbol (SOFT_DECISION_VITERBI_PUNCTURED (- 127) 127)
                   [5, 0xFF, 9] [1, 0, 1, 1]) [0..<4]
               = [5, 0, 0xFFFF, 9]"
    by (simp add: depunctured_symbol_def transmitted_before_def cyclic_puncture_flag_def upt_rec
        SOFT_DECISION_VITERBI_PUNCTURED_def)
  ultimately show ?thesis
    by (simp add: tb)
qed

section \<open>Properties of the MOT segment assembler\<close>










section \<open>Properties of \<open>ProcessFIBGroup\<close>\<close>

lemma fold_update_range:
  "k + m \<le> length xs \<Longrightarrow>
   fold (\<lambda>j ys. ys[k + j := f j]) [0..<m] xs = take k xs @ map f [0..<m] @ drop (k + m) xs"
proof (induction m)
  case 0
  then show ?case by simp
next
  case (Suc m)
  then have lt: "k + m < length xs" by simp
  have "fold (\<lambda>j ys. ys[k + j := f j]) [0..<Suc m] xs
        = (take k xs @ map f [0..<m] @ drop (k + m) xs)[k + m := f m]"
    using Suc by simp
  also have "\<dots> = take k xs @ map f [0..<m] @ (drop (k + m) xs)[0 := f m]"
    using lt by (simp add: list_update_append)
  also have "(drop (k + m) xs)[0 := f m] = f m # drop (Suc (k + m)) xs"
    using lt by (simp add: Cons_nth_drop_Suc [symmetric])
  finally show ?case by simp
qed

lemma fold_update_prefix:
  "m \<le> length xs \<Longrightarrow>
   fold (\<lambda>j ys. ys[j := f j]) [0..<m] xs = map f [0..<m] @ drop m xs"
  using fold_update_range [of 0 m xs f] by simp

lemma unpack_bits_prefix:
  "8 * n \<le> length bits \<Longrightarrow>
   fold (\<lambda>i bits.
           let b = encoded_bytes ! i
           in fold (\<lambda>j bits. bits[8 * i + j := drop_bit j b AND 1]) [0..<8] bits)
        [0..<n] bits
   = concat (map (\<lambda>i. bits_of_byte (encoded_bytes ! i)) [0..<n]) @ drop (8 * n) bits"
proof (induction n)
  case 0
  then show ?case by simp
next
  case (Suc n)
  let ?done = "concat (map (\<lambda>i. bits_of_byte (encoded_bytes ! i)) [0..<n])"
  have len: "length ?done = 8 * n"
    by (induction n) (simp_all add: bits_of_byte_def)
  have room: "8 * n + 8 \<le> length (?done @ drop (8 * n) bits)"
    using Suc.prems len by simp
  have "fold (\<lambda>j ys. ys[8 * n + j := drop_bit j (encoded_bytes ! n) AND 1]) [0..<8]
          (?done @ drop (8 * n) bits)
        = take (8 * n) (?done @ drop (8 * n) bits)
          @ map (\<lambda>j. drop_bit j (encoded_bytes ! n) AND 1) [0..<8]
          @ drop (8 * n + 8) (?done @ drop (8 * n) bits)"
    using room by (rule fold_update_range)
  also have "\<dots> = ?done @ bits_of_byte (encoded_bytes ! n) @ drop (8 * Suc n) bits"
    using len by (simp add: bits_of_byte_def add.commute)
  finally show ?case
    using Suc by (simp add: Let_def)
qed

lemma unpack_bits_eq:
  assumes "288 \<le> length encoded_bytes" and "length encoded_bits = 2304"
  shows "unpack_bits encoded_bytes encoded_bits = concat (map bits_of_byte (take 288 encoded_bytes))"
proof -
  have "map (\<lambda>i. bits_of_byte (encoded_bytes ! i)) [0..<288]
        = map bits_of_byte (take 288 encoded_bytes)"
    using assms(1) by (simp add: list_eq_iff_nth_eq)
  then show ?thesis
    using unpack_bits_prefix [of 288 encoded_bits encoded_bytes] assms(2)
    by (simp add: unpack_bits_def)
qed

lemma pack_byte_eq:
  "fold (\<lambda>j b. b OR push_bit (7 - j) (decoded_bits ! (8 * i + j))) [0..<8] (0x00 :: u8)
   = byte_of_bits decoded_bits i"
proof -
  have "[0..<8] = [0, 1, 2, 3, 4, 5, 6, 7 :: nat]"
    by (simp add: upt_rec)
  then show ?thesis
    by (simp add: byte_of_bits_def ac_simps)
qed

lemma pack_bits_eq:
  assumes "length decoded_bytes = 96"
  shows "pack_bits decoded_bits decoded_bytes = map (byte_of_bits decoded_bits) [0..<96]"
  using fold_update_prefix [of 96 decoded_bytes "byte_of_bits decoded_bits"] assms
  by (simp add: pack_bits_def pack_byte_eq)

lemma descramble_prefix:
  "n \<le> length bytes \<Longrightarrow>
   fold (\<lambda>i (bytes, s).
           let (b, s') = AdditiveScrambler_Process ext s
           in (bytes[i := bytes ! i XOR b], s'))
        [0..<n] (bytes, s)
   = (map (\<lambda>i. bytes ! i XOR fst (AdditiveScrambler_Process ext (scrambler_state ext i s)))
        [0..<n] @ drop n bytes,
      scrambler_state ext n s)"
proof (induction n)
  case 0
  then show ?case by simp
next
  case (Suc n)
  then have lt: "n < length bytes" by simp
  let ?f = "\<lambda>i. bytes ! i XOR fst (AdditiveScrambler_Process ext (scrambler_state ext i s))"
  let ?step = "\<lambda>i (bytes, s).
           let (b, s') = AdditiveScrambler_Process ext s
           in (bytes[i := bytes ! i XOR b], s')"
  have nth: "(map ?f [0..<n] @ drop n bytes) ! n = bytes ! n"
    using lt by (simp add: nth_append)
  have upd: "(map ?f [0..<n] @ drop n bytes)[n := x] = map ?f [0..<n] @ x # drop (Suc n) bytes"
    for x
    using lt by (simp add: list_update_append Cons_nth_drop_Suc [symmetric])
  have "fold ?step [0..<Suc n] (bytes, s) = ?step n (fold ?step [0..<n] (bytes, s))"
    by simp
  also have "\<dots> = ?step n (map ?f [0..<n] @ drop n bytes, scrambler_state ext n s)"
    using Suc.IH lt by simp
  also have "\<dots> = (map ?f [0..<n] @ ?f n # drop (Suc n) bytes, scrambler_state ext (Suc n) s)"
    by (simp only: case_prod_conv Let_def case_prod_beta fst_conv snd_conv nth upd
        scrambler_state.simps)
  also have "\<dots> = (map ?f [0..<Suc n] @ drop (Suc n) bytes, scrambler_state ext (Suc n) s)"
    by simp
  finally show ?case .
qed

lemma descramble_eq:
  assumes "length bytes = 96"
  shows "descramble ext (bytes, s)
       = (map (\<lambda>i. bytes ! i XOR scrambler_sequence ext 96 s ! i) [0..<96],
          scrambler_state ext 96 s)"
proof -
  have "map (\<lambda>i. bytes ! i XOR fst (AdditiveScrambler_Process ext (scrambler_state ext i s)))
          [0..<96]
        = map (\<lambda>i. bytes ! i XOR scrambler_sequence ext 96 s ! i) [0..<96]"
    by (rule map_cong) (simp_all add: scrambler_sequence_def)
  then show ?thesis
    using descramble_prefix [of 96 bytes ext s] assms
    by (simp add: descramble_def)
qed

lemma crc_loop_three_fibs:
  "ProcessFIBGroup_crc_loop decoded_bytes 0 cif_index = do {
     e0 \<leftarrow> ProcessFIBGroup_fib decoded_bytes cif_index;
     e1 \<leftarrow> ProcessFIBGroup_fib (drop 32 decoded_bytes) cif_index;
     e2 \<leftarrow> ProcessFIBGroup_fib (drop 64 decoded_bytes) cif_index;
     Some (e0 @ e1 @ e2)
   }"
proof -
  have l3: "ProcessFIBGroup_crc_loop decoded_bytes (Suc (Suc (Suc 0))) cif_index = Some []"
    by (subst ProcessFIBGroup_crc_loop.simps) simp
  have l2: "ProcessFIBGroup_crc_loop decoded_bytes (Suc (Suc 0)) cif_index
            = do { e2 \<leftarrow> ProcessFIBGroup_fib (drop 64 decoded_bytes) cif_index; Some e2 }"
    by (subst ProcessFIBGroup_crc_loop.simps) (simp add: l3)
  have l1: "ProcessFIBGroup_crc_loop decoded_bytes (Suc 0) cif_index
            = do { e1 \<leftarrow> ProcessFIBGroup_fib (drop 32 decoded_bytes) cif_index;
                   e2 \<leftarrow> ProcessFIBGroup_fib (drop 64 decoded_bytes) cif_index;
                   Some (e1 @ e2) }"
    by (subst ProcessFIBGroup_crc_loop.simps) (simp add: l2)
  show ?thesis
    by (subst ProcessFIBGroup_crc_loop.simps) (simp add: l1)
qed

text \<open>
  Claim C3. Decoding one group of 288 encoded bytes runs, in this order: three calls
  of the Viterbi decoder, each starting in the encoded bits and in the decoded
  bits where the one before stopped: \<open>PI_16\<close> (32 flags) for \<open>21 \<times> 128\<close> output bits,
  \<open>PI_15\<close> (32 flags) for \<open>3 \<times> 128\<close> output bits, then \<open>PI_X\<close> (24 flags) for \<open>24\<close>
  output bits with the flag of the terminated run; the 768 decoded bits are then
  packed into 96 bytes, most significant bit first, and each byte is XORed with the
  next byte of the scrambler, restarted from its syncword, which the constructor
  set to \<open>0xFFFF\<close>; the result is read as three FIBs of 32 bytes at offsets 0, 32
  and 64, each put through the CRC check and, when valid, through the FIG parser.

  The three results of the decoder are named by the hypotheses \<open>run1\<close>, \<open>run2\<close>,
  \<open>run3\<close>; \<open>ok1\<close>, \<open>ok2\<close>, \<open>ok3\<close> say that the decoder writes inside the array it is
  given and reports positions inside the two arrays.
\<close>

theorem ProcessFIBGroup_steps:
  fixes ext :: "('v, 's) FIC_collaborators" and self :: "('v, 's) FIC_Processor"
    and encoded_bytes written1 written2 written3 :: "u8 list"
    and res1 res2 res3 :: DecodeResult
  defines "bits \<equiv> concat (map bits_of_byte (take 288 encoded_bytes))"
    and "e1 \<equiv> nb_encoded_bits res1" and "c1 \<equiv> nb_decoded_bits res1"
    and "e2 \<equiv> nb_encoded_bits res1 + nb_encoded_bits res2"
    and "c2 \<equiv> nb_decoded_bits res1 + nb_decoded_bits res2"
  defines "decoded2 \<equiv> take (nat c1) written1 @ written2"
  defines "decoded3 \<equiv> take (nat c2) decoded2 @ written3"
  defines "descrambled \<equiv>
     map (\<lambda>i. byte_of_bits decoded3 i
              XOR scrambler_sequence ext 96 (AdditiveScrambler_Reset ext (scrambler self)) ! i)
         [0..<96]"
  assumes sizes: "288 \<le> length encoded_bytes" "length (static_encoded_bits self) = 2304"
      "length (static_decoded_bits self) = 768" "length (static_decoded_bytes self) = 96"
    and run1: "ViterbiDecoder_Decode ext (ViterbiDecoder_Reset ext (vitdec self))
        \<lparr> call_encoded_bits = bits, call_nb_encoded_bits = 2304,
          call_puncture_code = PI_16 ext, call_nb_puncture_bits = 32,
          call_decoded_bits = static_decoded_bits self, call_nb_decoded_bits = 768,
          call_nb_output_bits = 21 * 128, call_is_terminated = False \<rparr>
        = (res1, written1, v1)"
    and ok1: "length written1 = 768" "0 \<le> e1" "e1 \<le> 2304" "0 \<le> c1" "c1 \<le> 768"
    and run2: "ViterbiDecoder_Decode ext v1
        \<lparr> call_encoded_bits = drop (nat e1) bits, call_nb_encoded_bits = 2304 - e1,
          call_puncture_code = PI_15 ext, call_nb_puncture_bits = 32,
          call_decoded_bits = drop (nat c1) written1, call_nb_decoded_bits = 768 - c1,
          call_nb_output_bits = 3 * 128, call_is_terminated = False \<rparr>
        = (res2, written2, v2)"
    and ok2: "length written2 = 768 - nat c1" "0 \<le> e2" "e2 \<le> 2304" "0 \<le> c2" "c2 \<le> 768"
    and run3: "ViterbiDecoder_Decode ext v2
        \<lparr> call_encoded_bits = drop (nat e2) bits, call_nb_encoded_bits = 2304 - e2,
          call_puncture_code = PI_X ext, call_nb_puncture_bits = 24,
          call_decoded_bits = drop (nat c2) decoded2, call_nb_decoded_bits = 768 - c2,
          call_nb_output_bits = 24, call_is_terminated = True \<rparr>
        = (res3, written3, v3)"
    and ok3: "length written3 = 768 - nat c2"
  shows "ProcessFIBGroup ext self encoded_bytes cif_index = do {
           fib0 \<leftarrow> ProcessFIBGroup_fib descrambled cif_index;
           fib1 \<leftarrow> ProcessFIBGroup_fib (drop 32 descrambled) cif_index;
           fib2 \<leftarrow> ProcessFIBGroup_fib (drop 64 descrambled) cif_index;
           Some (fib0 @ fib1 @ fib2,
                 \<lparr> vitdec = v3,
                   scrambler = scrambler_state ext 96
                                 (AdditiveScrambler_Reset ext (scrambler self)),
                   static_encoded_bits = bits,
                   static_decoded_bits = decoded3,
                   static_decoded_bytes = descrambled \<rparr>)
         }
       \<and> scrambler (FIC_Processor_new ext uninitialised)
           = AdditiveScrambler_SetSyncword ext 0xFFFF (AdditiveScrambler_new ext)"
proof
  have u: "unpack_bits encoded_bytes (static_encoded_bits self) = bits"
    using sizes(1,2) by (simp add: unpack_bits_eq bits_def)
  have bits_len: "length bits = 2304"
    using sizes(1) by (simp add: bits_def length_concat sum_list_triv o_def bits_of_byte_def)
  have d1: "Decode_at ext (ViterbiDecoder_Reset ext (vitdec self)) bits 0 (PI_16 ext) 32
              (static_decoded_bits self) 0 2688 False
            = Some (res1, written1, v1)"
    using run1 ok1(1) sizes(3) bits_len
    by (simp add: Decode_at_def pointer_into_def)
  have d2: "Decode_at ext v1 bits e1 (PI_15 ext) 32 written1 c1 384 False
            = Some (res2, decoded2, v2)"
    using run2 ok1 ok2(1) bits_len
    by (simp add: Decode_at_def pointer_into_def decoded2_def)
  have len2: "length decoded2 = 768"
    using ok1 ok2(1) by (simp add: decoded2_def)
  have d3: "Decode_at ext v2 bits e2 (PI_X ext) 24 decoded2 c2 24 True
            = Some (res3, decoded3, v3)"
    using run3 ok2 ok3 bits_len len2
    by (simp add: Decode_at_def pointer_into_def decoded3_def)
  have p: "pack_bits decoded3 (static_decoded_bytes self) = map (byte_of_bits decoded3) [0..<96]"
    using sizes(4) by (rule pack_bits_eq)
  have "map (\<lambda>i. map (byte_of_bits decoded3) [0..<96] ! i
                   XOR scrambler_sequence ext 96 (AdditiveScrambler_Reset ext (scrambler self)) ! i)
          [0..<96] = descrambled"
    unfolding descrambled_def by (rule map_cong) simp_all
  then have d: "descramble ext (map (byte_of_bits decoded3) [0..<96],
                                AdditiveScrambler_Reset ext (scrambler self))
        = (descrambled,
           scrambler_state ext 96 (AdditiveScrambler_Reset ext (scrambler self)))"
    by (simp add: descramble_eq)
  show "ProcessFIBGroup ext self encoded_bytes cif_index = do {
           fib0 \<leftarrow> ProcessFIBGroup_fib descrambled cif_index;
           fib1 \<leftarrow> ProcessFIBGroup_fib (drop 32 descrambled) cif_index;
           fib2 \<leftarrow> ProcessFIBGroup_fib (drop 64 descrambled) cif_index;
           Some (fib0 @ fib1 @ fib2,
                 \<lparr> vitdec = v3,
                   scrambler = scrambler_state ext 96
                                 (AdditiveScrambler_Reset ext (scrambler self)),
                   static_encoded_bits = bits,
                   static_decoded_bits = decoded3,
                   static_decoded_bytes = descrambled \<rparr>)
         }"
    using sizes
    by (simp add: ProcessFIBGroup_def Let_def u d1 d2 [unfolded e1_def c1_def]
        d3 [unfolded e2_def c2_def] p d crc_loop_three_fibs)
  show "scrambler (FIC_Processor_new ext uninitialised)
        = AdditiveScrambler_SetSyncword ext 0xFFFF (AdditiveScrambler_new ext)"
    by (simp add: FIC_Processor_new_def)
qed

lemma example_fibs_first:
  "ProcessFIBGroup_fib example_fibs 0
   = Some [LOG_MESSAGE_fig_0_0 0
        (Fig_0_0_log \<lparr>country_id = 0xC, ensemble_reference = 0x012\<rparr> 0 0 5 50)]"
  by code_simp

lemma example_fibs_second:
  "ProcessFIBGroup_fib (drop 32 example_fibs) 0 = Some []"
  by code_simp

lemma example_fibs_third:
  "ProcessFIBGroup_fib (drop 64 example_fibs) 0
   = Some [LOG_MESSAGE_fig_0_0 0
        (Fig_0_0_log \<lparr>country_id = 0xC, ensemble_reference = 0x012\<rparr> 0 0 5 50)]"
  by code_simp

lemma bit_of_single:
  "bit (push_bit k (drop_bit k b AND 1) :: u8) n \<longleftrightarrow> n = k \<and> bit b n"
  by (auto simp add: bit_simps bit_1_iff dest: bit_imp_le_length)

lemma byte_of_msb_first_bits:
  "push_bit 7 (drop_bit 7 b AND 1) OR push_bit 6 (drop_bit 6 b AND 1)
   OR push_bit 5 (drop_bit 5 b AND 1) OR push_bit 4 (drop_bit 4 b AND 1)
   OR push_bit 3 (drop_bit 3 b AND 1) OR push_bit 2 (drop_bit 2 b AND 1)
   OR push_bit 1 (drop_bit 1 b AND 1) OR push_bit 0 (drop_bit 0 b AND 1) = (b :: u8)"
proof (rule bit_eqI)
  fix n
  have small: "n \<in> {7, 6, 5, 4, 3, 2, 1, 0}" if "bit b n"
    using bit_imp_le_length [OF that] by simp arith
  show "bit (push_bit 7 (drop_bit 7 b AND 1) OR push_bit 6 (drop_bit 6 b AND 1)
   OR push_bit 5 (drop_bit 5 b AND 1) OR push_bit 4 (drop_bit 4 b AND 1)
   OR push_bit 3 (drop_bit 3 b AND 1) OR push_bit 2 (drop_bit 2 b AND 1)
   OR push_bit 1 (drop_bit 1 b AND 1) OR push_bit 0 (drop_bit 0 b AND 1)) n = bit b n"
    unfolding bit_or_iff bit_of_single
    using small by auto
qed


lemma length_msb_first_bits: "length (msb_first_bits b) = 8"
  by (simp add: msb_first_bits_def)

lemma nth_msb_first_bits: "j < 8 \<Longrightarrow> msb_first_bits b ! j = drop_bit (7 - j) b AND 1"
  unfolding msb_first_bits_def by (subst nth_map) simp_all

lemma nth_concat_msb_first_bits:
  "i < length xs \<Longrightarrow> j < 8 \<Longrightarrow>
   concat (map msb_first_bits xs) ! (8 * i + j) = drop_bit (7 - j) (xs ! i) AND 1"
proof (induction xs arbitrary: i)
  case Nil
  then show ?case by simp
next
  case (Cons x xs)
  show ?case
  proof (cases i)
    case 0
    then show ?thesis
      using Cons.prems(2) by (simp add: nth_append length_msb_first_bits nth_msb_first_bits)
  next
    case (Suc k)
    then have "concat (map msb_first_bits (x # xs)) ! (8 * i + j)
               = concat (map msb_first_bits xs) ! (8 * k + j)"
      by (simp add: nth_append length_msb_first_bits)
    then show ?thesis
      using Cons.IH [of k] Cons.prems Suc by simp
  qed
qed

lemma byte_of_bits_concat:
  assumes "i < length xs"
  shows "byte_of_bits (concat (map msb_first_bits xs)) i = xs ! i"
proof -
  let ?bits = "concat (map msb_first_bits xs)"
  note nth = nth_concat_msb_first_bits [OF assms]
  have b0: "?bits ! (8 * i) = drop_bit 7 (xs ! i) AND 1"
    using nth [of 0] by simp
  have b1: "?bits ! (8 * i + 1) = drop_bit 6 (xs ! i) AND 1"
    using nth [of 1] by simp
  have b2: "?bits ! (8 * i + 2) = drop_bit 5 (xs ! i) AND 1"
    using nth [of 2] by simp
  have b3: "?bits ! (8 * i + 3) = drop_bit 4 (xs ! i) AND 1"
    using nth [of 3] by simp
  have b4: "?bits ! (8 * i + 4) = drop_bit 3 (xs ! i) AND 1"
    using nth [of 4] by simp
  have b5: "?bits ! (8 * i + 5) = drop_bit 2 (xs ! i) AND 1"
    using nth [of 5] by simp
  have b6: "?bits ! (8 * i + 6) = drop_bit 1 (xs ! i) AND 1"
    using nth [of 6] by simp
  have b7: "?bits ! (8 * i + 7) = drop_bit 0 (xs ! i) AND 1"
    using nth [of 7] by simp
  show ?thesis
    unfolding byte_of_bits_def b0 b1 b2 b3 b4 b5 b6 b7
    by (rule byte_of_msb_first_bits)
qed


lemma example_scrambler_state:
  "scrambler_state example_collaborators n (syncword, 0) = (syncword, n)"
  by (induction n) (simp_all add: example_collaborators_def)

lemma example_scrambler_sequence:
  "i < n \<Longrightarrow>
   scrambler_sequence example_collaborators n (syncword, 0) ! i = ucast syncword + of_nat i"
  using example_scrambler_state [of i syncword]
  by (simp add: scrambler_sequence_def) (simp add: example_collaborators_def)

lemma length_example_fibs: "length example_fibs = 96"
  by (simp add: example_fibs_def)

lemma length_example_decoded_bits: "length example_decoded_bits = 768"
  by (simp add: example_decoded_bits_def length_concat o_def length_msb_first_bits
      sum_list_triv)

lemma example_descrambled:
  "map (\<lambda>i. byte_of_bits example_decoded_bits i
            XOR scrambler_sequence example_collaborators 96 (0xFFFF, 0) ! i)
     [0..<96] = example_fibs"
proof (rule nth_equalityI)
  show "length (map (\<lambda>i. byte_of_bits example_decoded_bits i
            XOR scrambler_sequence example_collaborators 96 (0xFFFF, 0) ! i) [0..<96])
        = length example_fibs"
    by (simp add: length_example_fibs)
next
  fix i
  assume "i < length (map (\<lambda>i. byte_of_bits example_decoded_bits i
            XOR scrambler_sequence example_collaborators 96 (0xFFFF, 0) ! i) [0..<96])"
  then have i: "i < 96"
    by simp
  have bits: "example_decoded_bits
      = concat (map msb_first_bits
                 (map (\<lambda>k. example_fibs ! k XOR (0xFF + of_nat k)) [0..<96]))"
    by (simp add: example_decoded_bits_def o_def)
  have "byte_of_bits example_decoded_bits i = example_fibs ! i XOR (0xFF + of_nat i)"
    unfolding bits using i by (subst byte_of_bits_concat) simp_all
  moreover have "scrambler_sequence example_collaborators 96 (0xFFFF, 0) ! i = 0xFF + of_nat i"
    using i by (simp add: example_scrambler_sequence)
  ultimately show "map (\<lambda>i. byte_of_bits example_decoded_bits i
            XOR scrambler_sequence example_collaborators 96 (0xFFFF, 0) ! i) [0..<96] ! i
        = example_fibs ! i"
    using i by (simp add: xor.assoc)
qed

lemma example_decoded_bits_split:
  "take 672 example_decoded_bits @ take 96 (drop 672 example_decoded_bits)
   = example_decoded_bits"
  using take_add [of 672 96 example_decoded_bits] length_example_decoded_bits
  by simp


lemma length_example_encoded_bytes: "length example_encoded_bytes = 288"
  by (simp add: example_encoded_bytes_def)

lemma length_bits_of_byte: "length (bits_of_byte b) = 8"
  by (simp add: bits_of_byte_def)

lemma drop_bits_of_bytes:
  "drop (8 * k) (concat (map bits_of_byte xs)) = concat (map bits_of_byte (drop k xs))"
proof (induction xs arbitrary: k)
  case Nil
  then show ?case by simp
next
  case (Cons x xs)
  show ?case
  proof (cases k)
    case 0
    then show ?thesis by simp
  next
    case (Suc n)
    then show ?thesis
      using Cons.IH [of n] by (simp add: length_bits_of_byte)
  qed
qed

lemma bits_at_byte:
  assumes "k < length xs"
  shows "take 8 (drop (8 * k) (concat (map bits_of_byte xs))) = bits_of_byte (xs ! k)"
proof -
  have "drop k xs = xs ! k # drop (Suc k) xs"
    using assms by (simp add: Cons_nth_drop_Suc)
  then show ?thesis
    by (simp add: drop_bits_of_bytes length_bits_of_byte)
qed

lemma bits_at_half_byte:
  assumes "Suc k < length xs"
  shows "take 8 (drop (8 * k + 4) (concat (map bits_of_byte xs)))
         = drop 4 (bits_of_byte (xs ! k)) @ take 4 (bits_of_byte (xs ! Suc k))"
proof -
  have "drop k xs = xs ! k # xs ! Suc k # drop (Suc (Suc k)) xs"
    using assms by (simp add: Cons_nth_drop_Suc Suc_lessD)
  moreover have "drop (8 * k + 4) (concat (map bits_of_byte xs))
                 = drop 4 (drop (8 * k) (concat (map bits_of_byte xs)))"
    by (simp add: add.commute)
  ultimately show ?thesis
    by (simp add: drop_bits_of_bytes length_bits_of_byte)
qed

lemma example_encoded_bytes_nth:
  "k < 288 \<Longrightarrow> example_encoded_bytes ! k = of_nat (3 * k + 1)"
  by (simp add: example_encoded_bytes_def)

lemma example_encoded_bits:
  "take 8 (concat (map bits_of_byte (take 288 example_encoded_bytes)))
   = [1, 0, 0, 0, 0, 0, 0, 0]"
  "take 8 (drop 2016 (concat (map bits_of_byte (take 288 example_encoded_bytes))))
   = [1, 0, 1, 0, 1, 1, 1, 1]"
  "take 8 (drop 2292 (concat (map bits_of_byte (take 288 example_encoded_bytes))))
   = [1, 0, 1, 0, 0, 1, 1, 1]"
proof -
  let ?bits = "concat (map bits_of_byte (take 288 example_encoded_bytes))"
  have all: "take 288 example_encoded_bytes = example_encoded_bytes"
    by (simp add: length_example_encoded_bytes)
  have b0: "bits_of_byte 1 = [1, 0, 0, 0, 0, 0, 0, 0]"
    by code_simp
  have b252: "bits_of_byte 757 = [1, 0, 1, 0, 1, 1, 1, 1]"
    by code_simp
  have b286: "drop 4 (bits_of_byte 859) @ take 4 (bits_of_byte 862) = [1, 0, 1, 0, 0, 1, 1, 1]"
    by code_simp
  have "take 8 (drop (8 * 0) ?bits) = bits_of_byte (example_encoded_bytes ! 0)"
    unfolding all by (rule bits_at_byte) (simp add: length_example_encoded_bytes)
  then show "take 8 ?bits = [1, 0, 0, 0, 0, 0, 0, 0]"
    by (simp add: example_encoded_bytes_nth b0)
  have "take 8 (drop (8 * 252) ?bits) = bits_of_byte (example_encoded_bytes ! 252)"
    unfolding all by (rule bits_at_byte) (simp add: length_example_encoded_bytes)
  then show "take 8 (drop 2016 ?bits) = [1, 0, 1, 0, 1, 1, 1, 1]"
    by (simp add: example_encoded_bytes_nth b252)
  have "take 8 (drop (8 * 286 + 4) ?bits)
        = drop 4 (bits_of_byte (example_encoded_bytes ! 286))
          @ take 4 (bits_of_byte (example_encoded_bytes ! Suc 286))"
    unfolding all by (rule bits_at_half_byte) (simp add: length_example_encoded_bytes)
  then show "take 8 (drop 2292 ?bits) = [1, 0, 1, 0, 0, 1, 1, 1]"
    using b286 by (simp add: example_encoded_bytes_nth)
qed

lemma example_sizes:
  "length (static_encoded_bits example_processor) = 2304"
  "length (static_decoded_bits example_processor) = 768"
  "length (static_decoded_bytes example_processor) = 96"
  by (simp_all add: example_processor_def FIC_Processor_new_def)

lemma example_processor_fields:
  "vitdec example_processor = []"
  "scrambler example_processor = (0xFFFF, 0)"
  "static_decoded_bits example_processor = replicate 768 0"
  by (simp_all add: example_processor_def FIC_Processor_new_def example_collaborators_def)

lemma example_collaborators_fields:
  "ViterbiDecoder_Reset example_collaborators v = []"
  "ViterbiDecoder_Decode example_collaborators = example_Decode"
  "AdditiveScrambler_Reset example_collaborators s = (fst s, 0)"
  "length (filter (\<lambda>flag. flag \<noteq> 0) (PI_16 example_collaborators)) = 24"
  "length (filter (\<lambda>flag. flag \<noteq> 0) (PI_15 example_collaborators)) = 23"
  "length (filter (\<lambda>flag. flag \<noteq> 0) (PI_X example_collaborators)) = 12"
  by (simp_all add: example_collaborators_def)

text \<open>
  An example. The decoder is called three times, with \<open>PI_16\<close>, \<open>PI_15\<close> and \<open>PI_X\<close>:
  the first call is given all 2304 encoded bits and all 768 decoded bits, consumes
  2016 and produces 672; the second is given the 288 and the 96 that are left,
  consumes 276 and produces 96; the third, with the flag of the terminated run, is
  given the last 12 encoded bits and no room. The encoded bits that each call finds
  first are those of byte 0, of byte 252 and of the upper half of byte 286 followed
  by the lower half of byte 287, least significant bit first. The bits written
  descramble, under the syncword \<open>0xFFFF\<close> of the constructor, to the three FIBs
  above: the FIG 0/0 of the first and of the third is reported, the second is
  dropped.
\<close>

theorem ProcessFIBGroup_steps_witness:
  "ProcessFIBGroup example_collaborators example_processor example_encoded_bytes 0
   = Some ([LOG_MESSAGE_fig_0_0 0
              (Fig_0_0_log \<lparr>country_id = 0xC, ensemble_reference = 0x012\<rparr> 0 0 5 50),
            LOG_MESSAGE_fig_0_0 0
              (Fig_0_0_log \<lparr>country_id = 0xC, ensemble_reference = 0x012\<rparr> 0 0 5 50)],
           \<lparr> vitdec =
               [\<lparr> call_encoded_bits = [1, 0, 0, 0, 0, 0, 0, 0], call_nb_encoded_bits = 2304,
                   call_puncture_code = PI_16 example_collaborators, call_nb_puncture_bits = 32,
                   call_decoded_bits = [], call_nb_decoded_bits = 768,
                   call_nb_output_bits = 2688, call_is_terminated = False \<rparr>,
                \<lparr> call_encoded_bits = [1, 0, 1, 0, 1, 1, 1, 1], call_nb_encoded_bits = 288,
                   call_puncture_code = PI_15 example_collaborators, call_nb_puncture_bits = 32,
                   call_decoded_bits = [], call_nb_decoded_bits = 96,
                   call_nb_output_bits = 384, call_is_terminated = False \<rparr>,
                \<lparr> call_encoded_bits = [1, 0, 1, 0, 0, 1, 1, 1], call_nb_encoded_bits = 12,
                   call_puncture_code = PI_X example_collaborators, call_nb_puncture_bits = 24,
                   call_decoded_bits = [], call_nb_decoded_bits = 0,
                   call_nb_output_bits = 24, call_is_terminated = True \<rparr>],
             scrambler = (0xFFFF, 96),
             static_encoded_bits = concat (map bits_of_byte (take 288 example_encoded_bytes)),
             static_decoded_bits = example_decoded_bits,
             static_decoded_bytes = example_fibs \<rparr>)"
proof -
  let ?ext = "example_collaborators"
  let ?self = "example_processor"
  let ?call1 = "\<lparr> call_encoded_bits = [1, 0, 0, 0, 0, 0, 0, 0], call_nb_encoded_bits = 2304,
                   call_puncture_code = PI_16 example_collaborators, call_nb_puncture_bits = 32,
                   call_decoded_bits = [], call_nb_decoded_bits = 768,
                   call_nb_output_bits = 2688, call_is_terminated = False \<rparr>"
  let ?call2 = "\<lparr> call_encoded_bits = [1, 0, 1, 0, 1, 1, 1, 1], call_nb_encoded_bits = 288,
                   call_puncture_code = PI_15 example_collaborators, call_nb_puncture_bits = 32,
                   call_decoded_bits = [], call_nb_decoded_bits = 96,
                   call_nb_output_bits = 384, call_is_terminated = False \<rparr>"
  let ?call3 = "\<lparr> call_encoded_bits = [1, 0, 1, 0, 0, 1, 1, 1], call_nb_encoded_bits = 12,
                   call_puncture_code = PI_X example_collaborators, call_nb_puncture_bits = 24,
                   call_decoded_bits = [], call_nb_decoded_bits = 0,
                   call_nb_output_bits = 24, call_is_terminated = True \<rparr>"
  have sizes: "288 \<le> length example_encoded_bytes"
      "length (static_encoded_bits ?self) = 2304"
      "length (static_decoded_bits ?self) = 768"
      "length (static_decoded_bytes ?self) = 96"
    by (simp_all add: example_sizes length_example_encoded_bytes)
  have "ProcessFIBGroup ?ext ?self example_encoded_bytes 0 = do {
           fib0 \<leftarrow> ProcessFIBGroup_fib example_fibs 0;
           fib1 \<leftarrow> ProcessFIBGroup_fib (drop 32 example_fibs) 0;
           fib2 \<leftarrow> ProcessFIBGroup_fib (drop 64 example_fibs) 0;
           Some (fib0 @ fib1 @ fib2,
                 \<lparr> vitdec = [?call1, ?call2, ?call3], scrambler = (0xFFFF, 96),
                   static_encoded_bits = concat (map bits_of_byte (take 288 example_encoded_bytes)),
                   static_decoded_bits = example_decoded_bits,
                   static_decoded_bytes = example_fibs \<rparr>)
         }"
    using ProcessFIBGroup_steps
      [where ext = ?ext and self = ?self
         and encoded_bytes = example_encoded_bytes and cif_index = 0
         and ?res1.0 = "\<lparr>nb_encoded_bits = 2016, nb_puncture_bits = 2688,
                          nb_decoded_bits = 672\<rparr>"
         and ?res2.0 = "\<lparr>nb_encoded_bits = 276, nb_puncture_bits = 384,
                          nb_decoded_bits = 96\<rparr>"
         and ?res3.0 = "\<lparr>nb_encoded_bits = 12, nb_puncture_bits = 24,
                          nb_decoded_bits = 0\<rparr>"
         and ?written1.0 = "take 672 example_decoded_bits @ replicate 96 0"
         and ?written2.0 = "take 96 (drop 672 example_decoded_bits)"
         and ?written3.0 = "[]"
         and ?v1.0 = "[?call1]" and ?v2.0 = "[?call1, ?call2]"
         and ?v3.0 = "[?call1, ?call2, ?call3]",
       OF sizes]
    by (simp add: example_processor_fields example_collaborators_fields example_Decode_def
        length_example_decoded_bits example_decoded_bits_split example_descrambled
        example_scrambler_state example_encoded_bits)
  then show ?thesis
    by (simp add: example_fibs_first example_fibs_second example_fibs_third)
qed

end
